theory Spec2Isabelle
  imports Complex_Main "HOL-Library.Sublist" "HOL-Library.Multiset"
begin

section \<open>Newsletter generator: content scoring and relevance ranking\<close>

text \<open>
  A shallow embedding of the scoring pipeline of the newsletter generator:
  \<^verbatim>\<open>models/user.py\<close>, \<^verbatim>\<open>models/article.py\<close>, \<^verbatim>\<open>article_processor.py\<close>,
  \<^verbatim>\<open>utils/text_utils.py\<close> and the selection step of \<^verbatim>\<open>newsletter_generator.py\<close>.

  Conventions.
  \<^item> A Python \<^verbatim>\<open>str\<close> is a \<open>string\<close>; the character operations (\<^verbatim>\<open>lower\<close>,
    \<^verbatim>\<open>isalpha\<close>, \<^verbatim>\<open>isdigit\<close>, the regular expression class \<^verbatim>\<open>\s\<close>) are the ASCII ones.
  \<^item> A Python \<^verbatim>\<open>float\<close> is a \<open>real\<close>: the arithmetic is the exact one, without rounding.
  \<^item> A Python \<^verbatim>\<open>int\<close> is an \<open>int\<close>; a length or a count, which is never negative, is a \<open>nat\<close>.
  \<^item> An exception is a value \<open>Inl e\<close> of the sum type \<open>error + 'a\<close>.
  \<^item> The functions of NLTK and scikit-learn are not part of the repository; they are fields
    of the record \<open>library\<close>, and every statement holds for all of them unless it says otherwise.
\<close>

subsection \<open>Strings\<close>

datatype error = ZeroDivisionError | KeyError string | ValueError | TypeError

text \<open>\<^verbatim>\<open>str.lower()\<close> on ASCII.\<close>

definition lower_char :: "char \<Rightarrow> char" where
  "lower_char c =
     (case map_of (zip ''ABCDEFGHIJKLMNOPQRSTUVWXYZ'' ''abcdefghijklmnopqrstuvwxyz'') c of
        Some d \<Rightarrow> d
      | None \<Rightarrow> c)"

definition lower :: "string \<Rightarrow> string" where
  "lower s = map lower_char s"

text \<open>\<^verbatim>\<open>a in b\<close> for two strings: \<open>a\<close> occurs in \<open>b\<close> as a contiguous substring.\<close>

definition str_in :: "string \<Rightarrow> string \<Rightarrow> bool" where
  "str_in a b = sublist a b"

text \<open>\<^verbatim>\<open>' '.join(xs)\<close>.\<close>

fun join_space :: "string list \<Rightarrow> string" where
  "join_space [] = []"
| "join_space [x] = x"
| "join_space (x # y # ys) = x @ '' '' @ join_space (y # ys)"

text \<open>\<^verbatim>\<open>str.isalpha()\<close> and \<^verbatim>\<open>str.isdigit()\<close>: false on the empty string.\<close>

definition is_alpha_char :: "char \<Rightarrow> bool" where
  "is_alpha_char c =
     (c \<in> set ''abcdefghijklmnopqrstuvwxyzABCDEFGHIJKLMNOPQRSTUVWXYZ'')"

definition is_digit_char :: "char \<Rightarrow> bool" where
  "is_digit_char c = (c \<in> set ''0123456789'')"

definition isalpha :: "string \<Rightarrow> bool" where
  "isalpha s = (s \<noteq> [] \<and> list_all is_alpha_char s)"

definition isdigit :: "string \<Rightarrow> bool" where
  "isdigit s = (s \<noteq> [] \<and> list_all is_digit_char s)"

text \<open>\<^verbatim>\<open>string.punctuation\<close>, the 32 ASCII punctuation characters in code order.\<close>

definition punctuation :: string where
  "punctuation =
     [CHR ''!'', CHR 0x22, CHR ''#'', CHR ''$'', CHR ''%'', CHR ''&'', CHR 0x27, CHR ''('',
      CHR '')'', CHR ''*'', CHR ''+'', CHR '','', CHR ''-'', CHR ''.'', CHR ''/'', CHR '':'',
      CHR '';'', CHR ''<'', CHR ''='', CHR ''>'', CHR ''?'', CHR ''@'', CHR ''['', CHR 0x5C,
      CHR '']'', CHR ''^'', CHR ''_'', CHR 0x60, CHR ''{'', CHR ''|'', CHR ''}'', CHR ''~'']"

text \<open>A slice \<^verbatim>\<open>xs[:n]\<close>: a negative \<open>n\<close> drops the last \<open>-n\<close> elements.\<close>

definition py_take :: "int \<Rightarrow> 'a list \<Rightarrow> 'a list" where
  "py_take n xs =
     (if 0 \<le> n then take (nat n) xs else take (length xs - nat (- n)) xs)"

text \<open>
  \<^verbatim>\<open>sorted(xs, key=f, reverse=True)\<close>: descending in the key, stable (elements with equal
  keys keep their order).
\<close>

definition sorted_desc :: "('a \<Rightarrow> 'k::linorder) \<Rightarrow> 'a list \<Rightarrow> 'a list" where
  "sorted_desc f xs = rev (sort_key f (rev xs))"

text \<open>
  \<^verbatim>\<open>collections.Counter(xs)\<close>: a dictionary from each element to its number of occurrences,
  in the order of first occurrence. \<^verbatim>\<open>c.get(x, 0)\<close> reads it, and \<^verbatim>\<open>c.most_common(n)\<close> gives
  the \<open>n\<close> entries with the largest counts, equal counts in the order of the dictionary, and no
  entry for \<open>n \<le> 0\<close>.
\<close>

fun bump :: "'a \<Rightarrow> ('a \<times> nat) list \<Rightarrow> ('a \<times> nat) list" where
  "bump x [] = [(x, 1)]"
| "bump x ((k, c) # kcs) = (if k = x then (k, Suc c) # kcs else (k, c) # bump x kcs)"

definition counter :: "'a list \<Rightarrow> ('a \<times> nat) list" where
  "counter xs = foldl (\<lambda>acc x. bump x acc) [] xs"

definition counter_get :: "('a \<times> nat) list \<Rightarrow> 'a \<Rightarrow> nat" where
  "counter_get c x = (case map_of c x of Some n \<Rightarrow> n | None \<Rightarrow> 0)"

definition most_common :: "int \<Rightarrow> ('a \<times> nat) list \<Rightarrow> ('a \<times> nat) list" where
  "most_common n c = take (nat n) (sorted_desc snd c)"

subsection \<open>The reader profile (\<^verbatim>\<open>models/user.py\<close>)\<close>

record user =
  user_id :: string
  name :: string
  email :: string
  interests :: "string list"
  preferred_sources :: "string list"
  max_articles_per_newsletter :: int
  preferred_categories :: "string list"
  excluded_keywords :: "string list"

text \<open>
  The two counts of \<^verbatim>\<open>User.matches_article\<close>:
  \<^verbatim>\<open>sum(1 for keyword in article_keywords if any(t.lower() in keyword.lower() for t in terms))\<close>.
\<close>

definition term_match :: "string list \<Rightarrow> string list \<Rightarrow> nat" where
  "term_match terms article_keywords =
     length (filter (\<lambda>keyword. list_ex (\<lambda>t. str_in (lower t) (lower keyword)) terms)
               article_keywords)"

definition interest_match :: "user \<Rightarrow> string list \<Rightarrow> nat" where
  "interest_match u article_keywords = term_match (interests u) article_keywords"

definition excluded_match :: "user \<Rightarrow> string list \<Rightarrow> nat" where
  "excluded_match u article_keywords = term_match (excluded_keywords u) article_keywords"

text \<open>\<^verbatim>\<open>a / b\<close> on two integers: the quotient as a float, or ZeroDivisionError.\<close>

definition truediv :: "int \<Rightarrow> int \<Rightarrow> error + real" where
  "truediv a b = (if b = 0 then Inl ZeroDivisionError else Inr (real_of_int a / real_of_int b))"

text \<open>
  What the interest block adds to the score:
  \<^verbatim>\<open>if interest_match > 0: score += min(interest_match / len(self.interests), 1.0) * 1.5\<close>.
\<close>

definition interest_term :: "user \<Rightarrow> string list \<Rightarrow> error + real" where
  "interest_term u article_keywords =
     (if interest_match u article_keywords > 0
      then (case truediv (int (interest_match u article_keywords)) (int (length (interests u))) of
              Inl e \<Rightarrow> Inl e
            | Inr q \<Rightarrow> Inr (min q 1 * 1.5))
      else Inr 0)"

text \<open>
  What the exclusion block takes from the score:
  \<^verbatim>\<open>if excluded_match > 0: score -= min(excluded_match, 1.0) * 0.5\<close>.
\<close>

definition excluded_penalty :: "user \<Rightarrow> string list \<Rightarrow> real" where
  "excluded_penalty u article_keywords =
     (if excluded_match u article_keywords > 0
      then min (real (excluded_match u article_keywords)) 1 * 0.5
      else 0)"

definition matches_article :: "user \<Rightarrow> string list \<Rightarrow> string \<Rightarrow> string \<Rightarrow> error + real" where
  "matches_article u article_keywords source category =
     (let max_score = 4;
          score = 0;
          score = (if source \<in> set (preferred_sources u) then score + 1 else score);
          score = (if category \<in> set (preferred_categories u) then score + 1 else score)
      in case interest_term u article_keywords of
           Inl e \<Rightarrow> Inl e
         | Inr t \<Rightarrow>
             (let score = score + t;
                  score = score - excluded_penalty u article_keywords
              in Inr (max 0 (min (score / max_score) 1))))"

subsection \<open>The libraries\<close>

text \<open>
  The functions the code calls in NLTK and scikit-learn. \<open>tfidf_fit\<close> says whether
  \<^verbatim>\<open>TfidfVectorizer.fit_transform\<close> returns on a list of contents (its matrix is never read) or
  raises.
\<close>

record library =
  word_tokenize :: "string \<Rightarrow> string list"
  sent_tokenize :: "string \<Rightarrow> string list"
  lemmatize :: "string \<Rightarrow> string"
  stop_words :: "string set"
  tfidf_fit :: "string list \<Rightarrow> bool"

subsection \<open>The article processor (\<^verbatim>\<open>article_processor.py\<close>)\<close>

record processor =
  categories :: "string list"
  keyword_min_length :: int
  keyword_max_count :: int
  summarize_length :: int
  category_keywords :: "(string \<times> string set) list"

text \<open>\<^verbatim>\<open>ArticleProcessor._initialize_category_keywords\<close>: the lexicon table, in the order it is written.\<close>

definition initialize_category_keywords :: "(string \<times> string set) list" where
  "initialize_category_keywords =
     [(''technology'',
        {''tech'', ''technology'', ''ai'', ''artificial'', ''intelligence'', ''software'',
         ''app'', ''application'', ''computer'', ''digital'', ''internet'', ''web'',
         ''cyber'', ''security'', ''data'', ''analytics'', ''cloud'', ''blockchain'',
         ''programming'', ''algorithm'', ''mobile'', ''smartphone'', ''device'',
         ''hardware'', ''robot'', ''automation'', ''startup'', ''innovation'',
         ''computing'', ''virtual'', ''augmented'', ''reality''}),
      (''business'',
        {''business'', ''company'', ''corporation'', ''market'', ''stock'', ''finance'',
         ''economy'', ''economic'', ''investment'', ''investor'', ''profit'', ''revenue'',
         ''startup'', ''entrepreneur'', ''ceo'', ''executive'', ''management'', ''strategy'',
         ''acquisition'', ''merger'', ''venture'', ''capital'', ''funding'', ''growth'',
         ''industry'', ''sector'', ''commercial'', ''trade'', ''banking'', ''financial''}),
      (''politics'',
        {''politics'', ''political'', ''government'', ''election'', ''campaign'', ''vote'',
         ''voter'', ''president'', ''congress'', ''senate'', ''house'', ''representative'',
         ''democrat'', ''republican'', ''liberal'', ''conservative'', ''policy'', ''law'',
         ''legislation'', ''regulation'', ''parliament'', ''minister'', ''cabinet'',
         ''leader'', ''party'', ''candidate'', ''bill'', ''diplomat'', ''foreign'', ''nation''}),
      (''entertainment'',
        {''entertainment'', ''movie'', ''film'', ''cinema'', ''actor'', ''actress'', ''star'',
         ''celebrity'', ''music'', ''song'', ''album'', ''concert'', ''perform'', ''singer'',
         ''band'', ''television'', ''tv'', ''show'', ''series'', ''episode'', ''streaming'',
         ''award'', ''festival'', ''director'', ''producer'', ''studio'', ''hollywood'',
         ''game'', ''gaming'', ''theater'', ''stage'', ''comedy'', ''drama''}),
      (''health'',
        {''health'', ''medical'', ''medicine'', ''doctor'', ''hospital'', ''patient'',
         ''disease'', ''condition'', ''treatment'', ''therapy'', ''drug'', ''research'',
         ''study'', ''scientist'', ''healthcare'', ''mental'', ''physical'', ''fitness'',
         ''exercise'', ''diet'', ''nutrition'', ''wellness'', ''healthy'', ''vaccine'',
         ''virus'', ''pandemic'', ''epidemic'', ''public'', ''emergency'', ''care''}),
      (''science'',
        {''science'', ''scientific'', ''research'', ''study'', ''discovery'', ''scientist'',
         ''experiment'', ''laboratory'', ''theory'', ''hypothesis'', ''physics'', ''chemistry'',
         ''biology'', ''astronomy'', ''space'', ''planet'', ''star'', ''galaxy'', ''universe'',
         ''climate'', ''environment'', ''energy'', ''renewable'', ''sustainable'', ''species'',
         ''evolution'', ''genetic'', ''dna'', ''molecule'', ''atom'', ''particle''}),
      (''sports'',
        {''sport'', ''sports'', ''game'', ''match'', ''player'', ''team'', ''coach'', ''league'',
         ''championship'', ''tournament'', ''competition'', ''athlete'', ''olympic'', ''medal'',
         ''football'', ''soccer'', ''baseball'', ''basketball'', ''tennis'', ''golf'', ''racing'',
         ''formula'', ''hockey'', ''rugby'', ''cricket'', ''boxing'', ''swimming'', ''track'',
         ''field'', ''fitness'', ''stadium'', ''fan'', ''victory'', ''defeat''}),
      (''world'',
        {''world'', ''international'', ''global'', ''foreign'', ''country'', ''nation'',
         ''war'', ''conflict'', ''peace'', ''military'', ''army'', ''troops'', ''treaty'',
         ''agreement'', ''diplomat'', ''embassy'', ''ambassador'', ''border'', ''refugee'',
         ''immigration'', ''trade'', ''sanction'', ''united'', ''nations'', ''europe'',
         ''asia'', ''africa'', ''america'', ''middle'', ''east'', ''crisis''}),
      (''general'',
        {''news'', ''report'', ''update'', ''information'', ''event'', ''development'',
         ''situation'', ''issue'', ''matter'', ''topic'', ''story'', ''article'', ''coverage'',
         ''press'', ''media'', ''daily'', ''weekly'', ''monthly'', ''latest'', ''breaking'',
         ''current'', ''today'', ''yesterday'', ''tomorrow'', ''week'', ''month'', ''year''})]"

text \<open>
  \<^verbatim>\<open>ArticleProcessor.__init__\<close>: \<^verbatim>\<open>categories or [...]\<close> takes the default list when the argument
  is \<^verbatim>\<open>None\<close> or empty.
\<close>

definition default_categories :: "string list" where
  "default_categories =
     [''technology'', ''business'', ''politics'', ''entertainment'',
      ''health'', ''science'', ''sports'', ''world'', ''general'']"

definition new_processor :: "string list option \<Rightarrow> int \<Rightarrow> int \<Rightarrow> int \<Rightarrow> processor" where
  "new_processor cats kmin kmax slen =
     \<lparr>categories = (case cats of None \<Rightarrow> default_categories
                               | Some cs \<Rightarrow> if cs = [] then default_categories else cs),
      keyword_min_length = kmin,
      keyword_max_count = kmax,
      summarize_length = slen,
      category_keywords = initialize_category_keywords\<rparr>"

definition default_processor :: processor where
  "default_processor = new_processor None 3 15 3"

text \<open>\<^verbatim>\<open>ArticleProcessor.extract_keywords\<close>.\<close>

definition keeps_token :: "library \<Rightarrow> processor \<Rightarrow> string \<Rightarrow> bool" where
  "keeps_token L p token =
     (token \<notin> stop_words L \<and>
      \<not> str_in token punctuation \<and>
      int (length token) \<ge> keyword_min_length p \<and>
      \<not> isdigit token)"

definition extract_keywords :: "library \<Rightarrow> processor \<Rightarrow> string \<Rightarrow> string list" where
  "extract_keywords L p text =
     (let tokens = word_tokenize L (lower text);
          filtered_tokens = map (lemmatize L) (filter (keeps_token L p) tokens);
          token_counts = counter filtered_tokens
      in map fst (most_common (keyword_max_count p) token_counts))"

text \<open>
  \<^verbatim>\<open>ArticleProcessor.categorize_article\<close>. \<open>category_scores\<close> is the dictionary built from
  \<open>categories\<close>, in their order; \<^verbatim>\<open>category_scores[category] += 1\<close> raises KeyError on a category
  that is not a key. \<^verbatim>\<open>max(items, key=...)\<close> returns the first item with the largest key.
\<close>

fun dict_fromkeys :: "string list \<Rightarrow> (string \<times> nat) list \<Rightarrow> (string \<times> nat) list" where
  "dict_fromkeys [] d = d"
| "dict_fromkeys (c # cs) d =
     dict_fromkeys cs (if c \<in> fst ` set d then map (\<lambda>(k, v). if k = c then (k, 0) else (k, v)) d
                       else d @ [(c, 0)])"

definition increment :: "string \<Rightarrow> (string \<times> nat) list \<Rightarrow> error + (string \<times> nat) list" where
  "increment c d =
     (if c \<in> fst ` set d then Inr (map (\<lambda>(k, v). if k = c then (k, v + 1) else (k, v)) d)
      else Inl (KeyError c))"

fun score_keyword ::
  "string \<Rightarrow> (string \<times> string set) list \<Rightarrow> (string \<times> nat) list \<Rightarrow> error + (string \<times> nat) list"
where
  "score_keyword keyword [] d = Inr d"
| "score_keyword keyword ((category, cat_keywords) # rest) d =
     (if keyword \<in> cat_keywords
      then (case increment category d of
              Inl e \<Rightarrow> Inl e
            | Inr d' \<Rightarrow> score_keyword keyword rest d')
      else score_keyword keyword rest d)"

fun score_keywords ::
  "string list \<Rightarrow> (string \<times> string set) list \<Rightarrow> (string \<times> nat) list \<Rightarrow> error + (string \<times> nat) list"
where
  "score_keywords [] table d = Inr d"
| "score_keywords (keyword # keywords) table d =
     (case score_keyword keyword table d of
        Inl e \<Rightarrow> Inl e
      | Inr d' \<Rightarrow> score_keywords keywords table d')"

fun max_by :: "('a \<Rightarrow> nat) \<Rightarrow> 'a \<Rightarrow> 'a list \<Rightarrow> 'a" where
  "max_by f best [] = best"
| "max_by f best (x # xs) = max_by f (if f x > f best then x else best) xs"

definition max_default :: "nat list \<Rightarrow> nat \<Rightarrow> nat" where
  "max_default xs d = (case xs of [] \<Rightarrow> d | y # ys \<Rightarrow> fold max ys y)"

definition categorize_article :: "processor \<Rightarrow> string \<Rightarrow> string list \<Rightarrow> error + string" where
  "categorize_article p content keywords =
     (case score_keywords keywords (category_keywords p) (dict_fromkeys (categories p) []) of
        Inl e \<Rightarrow> Inl e
      | Inr category_scores \<Rightarrow>
          if max_default (map snd category_scores) 0 = 0 then Inr ''general''
          else (case category_scores of
                  [] \<Rightarrow> Inl ValueError
                | item # items \<Rightarrow> Inr (fst (max_by snd item items))))"

text \<open>\<^verbatim>\<open>ArticleProcessor.analyze_sentiment\<close>.\<close>

definition positive_words :: "string set" where
  "positive_words =
     {''good'', ''great'', ''excellent'', ''positive'', ''amazing'', ''wonderful'',
      ''fantastic'', ''terrific'', ''outstanding'', ''superb'', ''brilliant'',
      ''success'', ''successful'', ''beneficial'', ''advantage'', ''innovative''}"

definition negative_words :: "string set" where
  "negative_words =
     {''bad'', ''terrible'', ''poor'', ''negative'', ''awful'', ''horrible'',
      ''disappointing'', ''failure'', ''failed'', ''problem'', ''disaster'',
      ''crisis'', ''dangerous'', ''threat'', ''risk'', ''concern''}"

definition sentiment_words :: "library \<Rightarrow> string \<Rightarrow> string list" where
  "sentiment_words L text = filter isalpha (word_tokenize L (lower text))"

definition pos_count :: "library \<Rightarrow> string \<Rightarrow> nat" where
  "pos_count L text = length (filter (\<lambda>word. word \<in> positive_words) (sentiment_words L text))"

definition neg_count :: "library \<Rightarrow> string \<Rightarrow> nat" where
  "neg_count L text = length (filter (\<lambda>word. word \<in> negative_words) (sentiment_words L text))"

definition analyze_sentiment :: "library \<Rightarrow> string \<Rightarrow> real" where
  "analyze_sentiment L text =
     (let total = pos_count L text + neg_count L text
      in if total = 0 then 0
         else (real_of_int (int (pos_count L text) - int (neg_count L text))) / real total)"

text \<open>
  \<^verbatim>\<open>re.split(r'(?<=[.!?])\s+', text)\<close>: the text is cut at every maximal run of whitespace that
  follows one of \<^verbatim>\<open>.\<close>, \<^verbatim>\<open>!\<close>, \<^verbatim>\<open>?\<close>; the run is dropped. \<open>acc\<close> holds the current piece,
  reversed.
\<close>

definition is_space :: "char \<Rightarrow> bool" where
  "is_space c =
     (c \<in> set [CHR 0x09, CHR 0x0A, CHR 0x0B, CHR 0x0C, CHR 0x0D,
                CHR 0x1C, CHR 0x1D, CHR 0x1E, CHR 0x1F, CHR 0x20])"

definition is_sentence_end :: "char \<Rightarrow> bool" where
  "is_sentence_end c = (c \<in> set [CHR ''.'', CHR ''!'', CHR ''?''])"

function split_acc :: "string \<Rightarrow> string \<Rightarrow> string list" where
  "split_acc acc [] = [rev acc]"
| "split_acc acc (c # cs) =
     (if is_sentence_end c \<and> cs \<noteq> [] \<and> is_space (hd cs)
      then rev (c # acc) # split_acc [] (dropWhile is_space cs)
      else split_acc (c # acc) cs)"
  by pat_completeness auto
termination
  by (relation "measure (\<lambda>(acc, s). length s)")
     (auto simp: less_Suc_eq_le length_dropWhile_le)

definition split_sentences :: "string \<Rightarrow> string list" where
  "split_sentences text = split_acc [] text"

text \<open>\<^verbatim>\<open>ArticleProcessor._calculate_word_frequencies\<close>.\<close>

definition calculate_word_frequencies :: "library \<Rightarrow> string \<Rightarrow> (string \<times> nat) list" where
  "calculate_word_frequencies L text =
     (let words = word_tokenize L (lower text);
          filtered_words = filter (\<lambda>word. isalpha word \<and> word \<notin> stop_words L) words
      in counter filtered_words)"

text \<open>
  \<^verbatim>\<open>ArticleProcessor.generate_summary\<close>. \<open>sentence_score\<close> is the body of the scoring loop,
  \<open>top_indices\<close> the indices of the chosen sentences after \<^verbatim>\<open>top_indices.sort()\<close>.
\<close>

definition sentence_score :: "library \<Rightarrow> (string \<times> nat) list \<Rightarrow> string \<Rightarrow> real" where
  "sentence_score L word_freq sentence =
     (let words = word_tokenize L (lower sentence);
          score = sum_list (map (counter_get word_freq) (filter isalpha words))
      in if length words > 0 then real score / real (length words) else 0)"

definition top_indices :: "library \<Rightarrow> processor \<Rightarrow> string \<Rightarrow> nat list" where
  "top_indices L p text =
     (let sentences = split_sentences text;
          word_freq = calculate_word_frequencies L text;
          scores = (\<lambda>i. sentence_score L word_freq (sentences ! i));
          top = py_take (summarize_length p) (sorted_desc scores [0 ..< length sentences])
      in sort top)"

definition generate_summary :: "library \<Rightarrow> processor \<Rightarrow> string \<Rightarrow> string" where
  "generate_summary L p text =
     (let sentences = split_sentences text
      in if sentences = [] then ''''
         else if int (length sentences) \<le> summarize_length p then text
         else join_space (map (\<lambda>i. sentences ! i) (top_indices L p text)))"

subsection \<open>The text utilities (\<^verbatim>\<open>utils/text_utils.py\<close>)\<close>

text \<open>
  \<^verbatim>\<open>clean_text\<close>: \<^verbatim>\<open>re.sub(r'<[^>]+>', ' ', text)\<close>, then \<^verbatim>\<open>re.sub(r'\s+', ' ', text)\<close>, then
  \<^verbatim>\<open>text.strip()\<close>. A tag is a \<^verbatim>\<open><\<close>, at least one character other than \<^verbatim>\<open>>\<close>, and the next \<^verbatim>\<open>>\<close>.
\<close>

function remove_tags :: "string \<Rightarrow> string" where
  "remove_tags [] = []"
| "remove_tags (c # cs) =
     (if c = CHR ''<'' \<and> takeWhile (\<lambda>d. d \<noteq> CHR ''>'') cs \<noteq> []
           \<and> dropWhile (\<lambda>d. d \<noteq> CHR ''>'') cs \<noteq> []
      then CHR '' '' # remove_tags (tl (dropWhile (\<lambda>d. d \<noteq> CHR ''>'') cs))
      else c # remove_tags cs)"
  by pat_completeness auto
termination
  by (relation "measure length")
     (auto simp: less_Suc_eq_le intro: le_trans [OF diff_le_self length_dropWhile_le])

function collapse_spaces :: "string \<Rightarrow> string" where
  "collapse_spaces [] = []"
| "collapse_spaces (c # cs) =
     (if is_space c then CHR '' '' # collapse_spaces (dropWhile is_space cs)
      else c # collapse_spaces cs)"
  by pat_completeness auto
termination
  by (relation "measure length") (auto simp: less_Suc_eq_le length_dropWhile_le)

definition strip :: "string \<Rightarrow> string" where
  "strip s = rev (dropWhile is_space (rev (dropWhile is_space s)))"

definition clean_text :: "string \<Rightarrow> string" where
  "clean_text text = strip (collapse_spaces (remove_tags text))"

text \<open>\<^verbatim>\<open>calculate_word_frequency\<close>.\<close>

definition calculate_word_frequency :: "library \<Rightarrow> string \<Rightarrow> (string \<times> nat) list" where
  "calculate_word_frequency L text =
     (let words = word_tokenize L (lower text);
          filtered_words = filter (\<lambda>word. isalpha word \<and> word \<notin> stop_words L) words
      in counter filtered_words)"

text \<open>
  \<^verbatim>\<open>extract_sentences\<close>. A sentence with no word outside \<^verbatim>\<open>string.punctuation\<close> gets no score
  (\<^verbatim>\<open>continue\<close>) and is not a candidate.
\<close>

definition word_count :: "library \<Rightarrow> string \<Rightarrow> nat" where
  "word_count L sentence =
     length (filter (\<lambda>w. \<not> str_in (lower w) punctuation) (word_tokenize L (lower sentence)))"

definition tu_sentence_score :: "library \<Rightarrow> (string \<times> nat) list \<Rightarrow> string \<Rightarrow> real" where
  "tu_sentence_score L word_freq sentence =
     real (sum_list (map (\<lambda>word. counter_get word_freq (lower word))
                      (word_tokenize L (lower sentence))))
       / real (word_count L sentence)"

definition tu_top_indices :: "library \<Rightarrow> string \<Rightarrow> int \<Rightarrow> nat list" where
  "tu_top_indices L text max_sentences =
     (let text = clean_text text;
          sentences = sent_tokenize L text;
          word_freq = calculate_word_frequency L text;
          scored = filter (\<lambda>i. word_count L (sentences ! i) \<noteq> 0) [0 ..< length sentences];
          top = py_take max_sentences
                  (sorted_desc (\<lambda>i. tu_sentence_score L word_freq (sentences ! i)) scored)
      in sort top)"

definition extract_sentences :: "library \<Rightarrow> string \<Rightarrow> int \<Rightarrow> string list" where
  "extract_sentences L text max_sentences =
     (let sentences = sent_tokenize L (clean_text text)
      in if int (length sentences) \<le> max_sentences then sentences
         else map (\<lambda>i. sentences ! i) (tu_top_indices L text max_sentences))"

text \<open>\<^verbatim>\<open>text_utils.generate_summary\<close> and \<^verbatim>\<open>text_utils.extract_keywords\<close>.\<close>

definition tu_generate_summary :: "library \<Rightarrow> string \<Rightarrow> int \<Rightarrow> string" where
  "tu_generate_summary L text max_sentences = join_space (extract_sentences L text max_sentences)"

definition tu_extract_keywords :: "library \<Rightarrow> string \<Rightarrow> int \<Rightarrow> int \<Rightarrow> string list" where
  "tu_extract_keywords L text max_keywords min_length =
     (let words = word_tokenize L (lower (clean_text text));
          filtered_words =
            map (lemmatize L)
              (filter (\<lambda>word. isalpha word \<and> word \<notin> stop_words L \<and> int (length word) \<ge> min_length)
                 words);
          word_counts = counter filtered_words
      in map fst (most_common max_keywords word_counts))"

subsection \<open>The article (\<^verbatim>\<open>models/article.py\<close>)\<close>

text \<open>
  A naive \<^verbatim>\<open>datetime\<close>, as \<^verbatim>\<open>RSSFetcher._parse_date\<close> builds them, with the checks of its
  constructor.
\<close>

record datetime =
  year :: nat
  month :: nat
  day :: nat
  hour :: nat
  minute :: nat
  second :: nat
  microsecond :: nat

definition is_leap :: "nat \<Rightarrow> bool" where
  "is_leap y = (y mod 4 = 0 \<and> (y mod 100 \<noteq> 0 \<or> y mod 400 = 0))"

definition days_in_month :: "nat \<Rightarrow> nat \<Rightarrow> nat" where
  "days_in_month y m =
     (if m = 2 then (if is_leap y then 29 else 28)
      else if m \<in> {4, 6, 9, 11} then 30
      else 31)"

definition valid_datetime :: "datetime \<Rightarrow> bool" where
  "valid_datetime d =
     (1 \<le> year d \<and> year d \<le> 9999 \<and> 1 \<le> month d \<and> month d \<le> 12 \<and>
      1 \<le> day d \<and> day d \<le> days_in_month (year d) (month d) \<and>
      hour d < 24 \<and> minute d < 60 \<and> second d < 60 \<and> microsecond d < 1000000)"

text \<open>
  \<^verbatim>\<open>datetime.isoformat()\<close> of a naive datetime: \<^verbatim>\<open>YYYY-MM-DDTHH:MM:SS\<close>, followed by
  \<^verbatim>\<open>.ffffff\<close> when the microsecond is not 0. \<open>zfill k n\<close> writes the last \<open>k\<close> decimal digits
  of \<open>n\<close>.
\<close>

definition digit_char :: "nat \<Rightarrow> char" where
  "digit_char n = ''0123456789'' ! (n mod 10)"

fun zfill :: "nat \<Rightarrow> nat \<Rightarrow> string" where
  "zfill 0 n = []"
| "zfill (Suc k) n = zfill k (n div 10) @ [digit_char n]"

definition isoformat :: "datetime \<Rightarrow> string" where
  "isoformat d =
     zfill 4 (year d) @ ''-'' @ zfill 2 (month d) @ ''-'' @ zfill 2 (day d) @ ''T'' @
     zfill 2 (hour d) @ '':'' @ zfill 2 (minute d) @ '':'' @ zfill 2 (second d) @
     (if microsecond d = 0 then [] else ''.'' @ zfill 6 (microsecond d))"

text \<open>
  \<^verbatim>\<open>datetime.fromisoformat\<close>, on the two layouts above (any character may separate the date from
  the time); every other string is a ValueError here, as is a field out of range.
\<close>

definition digit_val :: "char \<Rightarrow> nat" where
  "digit_val c = (case map_of (zip ''0123456789'' [0, 1, 2, 3, 4, 5, 6, 7, 8, 9]) c of
                    Some n \<Rightarrow> n
                  | None \<Rightarrow> 0)"

definition parse_digits :: "string \<Rightarrow> nat option" where
  "parse_digits s =
     (if isdigit s then Some (foldl (\<lambda>acc c. 10 * acc + digit_val c) 0 s) else None)"

definition digits_at :: "string \<Rightarrow> nat \<Rightarrow> nat \<Rightarrow> nat option" where
  "digits_at s i n = parse_digits (take n (drop i s))"

definition fromisoformat :: "string \<Rightarrow> error + datetime" where
  "fromisoformat s =
     (if (length s = 19 \<or> (length s = 26 \<and> s ! 19 = CHR ''.''))
         \<and> s ! 4 = CHR ''-'' \<and> s ! 7 = CHR ''-'' \<and> s ! 13 = CHR '':'' \<and> s ! 16 = CHR '':''
      then (case (digits_at s 0 4, digits_at s 5 2, digits_at s 8 2,
                  digits_at s 11 2, digits_at s 14 2, digits_at s 17 2,
                  if length s = 19 then Some 0 else digits_at s 20 6) of
              (Some y, Some mo, Some dd, Some h, Some mi, Some sec, Some us) \<Rightarrow>
                (let d = \<lparr>year = y, month = mo, day = dd, hour = h, minute = mi,
                          second = sec, microsecond = us\<rparr>
                 in if valid_datetime d then Inr d else Inl ValueError)
            | _ \<Rightarrow> Inl ValueError)
      else Inl ValueError)"

record article =
  article_id :: string
  title :: string
  url :: string
  source :: string
  published_date :: datetime
  content :: string
  category :: string
  author :: "string option"
  image_url :: "string option"
  keyword_list :: "string list"
  summary :: "string option"
  sentiment_score :: real
  relevance_scores :: "string \<rightharpoonup> real"

text \<open>
  The values a dictionary of \<^verbatim>\<open>Article.to_dict\<close> holds. A dataclass does not check the types of
  its fields; the record does, so \<open>from_dict\<close> is a TypeError here on a value of another type
  than the field's.
\<close>

datatype pyval =
    Str string
  | NoneVal
  | StrList "string list"
  | Float real
  | Scores "string \<rightharpoonup> real"
  | Date datetime

definition to_dict :: "article \<Rightarrow> (string \<rightharpoonup> pyval)" where
  "to_dict a =
     [''id'' \<mapsto> Str (article_id a),
      ''title'' \<mapsto> Str (title a),
      ''url'' \<mapsto> Str (url a),
      ''source'' \<mapsto> Str (source a),
      ''published_date'' \<mapsto> Str (isoformat (published_date a)),
      ''content'' \<mapsto> Str (content a),
      ''category'' \<mapsto> Str (category a),
      ''author'' \<mapsto> (case author a of None \<Rightarrow> NoneVal | Some s \<Rightarrow> Str s),
      ''image_url'' \<mapsto> (case image_url a of None \<Rightarrow> NoneVal | Some s \<Rightarrow> Str s),
      ''keywords'' \<mapsto> StrList (keyword_list a),
      ''summary'' \<mapsto> (case summary a of None \<Rightarrow> NoneVal | Some s \<Rightarrow> Str s),
      ''sentiment_score'' \<mapsto> Float (sentiment_score a),
      ''relevance_scores'' \<mapsto> Scores (relevance_scores a)]"

text \<open>\<^verbatim>\<open>data[k]\<close> raises KeyError on a missing key; \<^verbatim>\<open>data.get(k, default)\<close> does not.\<close>

definition getitem :: "(string \<rightharpoonup> pyval) \<Rightarrow> string \<Rightarrow> error + pyval" where
  "getitem data k = (case data k of None \<Rightarrow> Inl (KeyError k) | Some v \<Rightarrow> Inr v)"

definition get_default :: "(string \<rightharpoonup> pyval) \<Rightarrow> string \<Rightarrow> pyval \<Rightarrow> pyval" where
  "get_default data k dflt = (case data k of None \<Rightarrow> dflt | Some v \<Rightarrow> v)"

definition bind :: "error + 'a \<Rightarrow> ('a \<Rightarrow> error + 'b) \<Rightarrow> error + 'b" where
  "bind r f = (case r of Inl e \<Rightarrow> Inl e | Inr x \<Rightarrow> f x)"

definition as_str :: "pyval \<Rightarrow> error + string" where
  "as_str v = (case v of Str s \<Rightarrow> Inr s | _ \<Rightarrow> Inl TypeError)"

definition as_opt_str :: "pyval \<Rightarrow> error + string option" where
  "as_opt_str v = (case v of Str s \<Rightarrow> Inr (Some s) | NoneVal \<Rightarrow> Inr None | _ \<Rightarrow> Inl TypeError)"

definition as_str_list :: "pyval \<Rightarrow> error + string list" where
  "as_str_list v = (case v of StrList xs \<Rightarrow> Inr xs | _ \<Rightarrow> Inl TypeError)"

definition as_float :: "pyval \<Rightarrow> error + real" where
  "as_float v = (case v of Float x \<Rightarrow> Inr x | _ \<Rightarrow> Inl TypeError)"

definition as_scores :: "pyval \<Rightarrow> error + (string \<rightharpoonup> real)" where
  "as_scores v = (case v of Scores m \<Rightarrow> Inr m | _ \<Rightarrow> Inl TypeError)"

text \<open>
  The first line of \<^verbatim>\<open>Article.from_dict\<close>: a string is parsed, any other value is taken as the
  date.
\<close>

definition parse_pub_date :: "(string \<rightharpoonup> pyval) \<Rightarrow> error + datetime" where
  "parse_pub_date data =
     bind (getitem data ''published_date'')
       (\<lambda>v. case v of Str s \<Rightarrow> fromisoformat s | Date d \<Rightarrow> Inr d | _ \<Rightarrow> Inl TypeError)"

definition from_dict :: "(string \<rightharpoonup> pyval) \<Rightarrow> error + article" where
  "from_dict data =
     bind (parse_pub_date data) (\<lambda>pub_date.
     bind (bind (getitem data ''id'') as_str) (\<lambda>v_id.
     bind (bind (getitem data ''title'') as_str) (\<lambda>v_title.
     bind (bind (getitem data ''url'') as_str) (\<lambda>v_url.
     bind (bind (getitem data ''source'') as_str) (\<lambda>v_source.
     bind (bind (getitem data ''content'') as_str) (\<lambda>v_content.
     bind (as_str (get_default data ''category'' (Str ''general''))) (\<lambda>v_category.
     bind (as_opt_str (get_default data ''author'' NoneVal)) (\<lambda>v_author.
     bind (as_opt_str (get_default data ''image_url'' NoneVal)) (\<lambda>v_image_url.
     bind (as_str_list (get_default data ''keywords'' (StrList []))) (\<lambda>v_keywords.
     bind (as_opt_str (get_default data ''summary'' NoneVal)) (\<lambda>v_summary.
     bind (as_float (get_default data ''sentiment_score'' (Float 0))) (\<lambda>v_sentiment.
     bind (as_scores (get_default data ''relevance_scores'' (Scores Map.empty))) (\<lambda>v_scores.
       Inr \<lparr>article_id = v_id, title = v_title, url = v_url, source = v_source,
            published_date = pub_date, content = v_content, category = v_category,
            author = v_author, image_url = v_image_url, keyword_list = v_keywords,
            summary = v_summary, sentiment_score = v_sentiment,
            relevance_scores = v_scores\<rparr>)))))))))))))"

text \<open>\<^verbatim>\<open>Article.add_user_relevance\<close>.\<close>

definition add_user_relevance :: "article \<Rightarrow> string \<Rightarrow> real \<Rightarrow> article" where
  "add_user_relevance a uid score = a\<lparr>relevance_scores := (relevance_scores a)(uid \<mapsto> score)\<rparr>"

subsection \<open>Processing and scoring (\<^verbatim>\<open>ArticleProcessor.process_articles\<close>)\<close>

text \<open>
  The four steps on one article, in the order of the code. Each step reads \<open>content\<close> (and the
  categorizer the keywords just written) and writes one field. An exception leaves the step.
\<close>

definition process_article :: "library \<Rightarrow> processor \<Rightarrow> article \<Rightarrow> error + article" where
  "process_article L p a =
     (let a = a\<lparr>keyword_list := extract_keywords L p (content a)\<rparr>
      in case categorize_article p (content a) (keyword_list a) of
           Inl e \<Rightarrow> Inl e
         | Inr c \<Rightarrow>
             (let a = a\<lparr>category := c\<rparr>;
                  a = a\<lparr>sentiment_score := analyze_sentiment L (content a)\<rparr>;
                  a = a\<lparr>summary := Some (generate_summary L p (content a))\<rparr>
              in Inr a))"

text \<open>
  A loop whose body is in \<^verbatim>\<open>try\<close>: an article whose processing raises is logged and left out
  of the result.
\<close>

fun process_each :: "library \<Rightarrow> processor \<Rightarrow> article list \<Rightarrow> article list" where
  "process_each L p [] = []"
| "process_each L p (a # as) =
     (case process_article L p a of
        Inl e \<Rightarrow> process_each L p as
      | Inr a' \<Rightarrow> a' # process_each L p as)"

text \<open>
  \<^verbatim>\<open>process_articles\<close>: with more than one article the vectorizer is fitted first, and when it
  raises, the outer handler processes the articles one by one; a single article is processed
  outside any inner \<^verbatim>\<open>try\<close>, so its exception reaches the outer handler too.
\<close>

definition process_articles :: "library \<Rightarrow> processor \<Rightarrow> article list \<Rightarrow> article list" where
  "process_articles L p articles =
     (if articles = [] then []
      else
        (let contents = map content articles
         in if length contents > 1
            then (if tfidf_fit L contents then process_each L p articles
                  else process_each L p articles)
            else (case process_article L p (hd articles) of
                    Inr a \<Rightarrow> [a]
                  | Inl e \<Rightarrow> process_each L p articles)))"

text \<open>\<^verbatim>\<open>ArticleProcessor.calculate_relevance_for_user\<close>: no handler, an exception leaves the loop.\<close>

fun calculate_relevance_for_user :: "article list \<Rightarrow> user \<Rightarrow> error + article list" where
  "calculate_relevance_for_user [] u = Inr []"
| "calculate_relevance_for_user (a # as) u =
     (case matches_article u (keyword_list a) (source a) (category a) of
        Inl e \<Rightarrow> Inl e
      | Inr relevance_score \<Rightarrow>
          (case calculate_relevance_for_user as u of
             Inl e \<Rightarrow> Inl e
           | Inr as' \<Rightarrow> Inr (add_user_relevance a (user_id u) relevance_score # as')))"

text \<open>
  The articles after \<^verbatim>\<open>main.process_data\<close>: processed once, then scored for each reader in
  turn.
\<close>

fun score_for_users :: "article list \<Rightarrow> user list \<Rightarrow> error + article list" where
  "score_for_users articles [] = Inr articles"
| "score_for_users articles (u # us) =
     (case calculate_relevance_for_user articles u of
        Inl e \<Rightarrow> Inl e
      | Inr articles' \<Rightarrow> score_for_users articles' us)"

definition process_data :: "library \<Rightarrow> processor \<Rightarrow> user list \<Rightarrow> article list \<Rightarrow> error + article list" where
  "process_data L p users articles = score_for_users (process_articles L p articles) users"

subsection \<open>Selection (\<^verbatim>\<open>NewsletterGenerator.generate_newsletter\<close>)\<close>

text \<open>
  The first steps of \<^verbatim>\<open>generate_newsletter\<close>: the articles with a score for the reader, sorted
  by that score, cut to \<open>max_articles\<close> (the reader's limit when the argument is \<^verbatim>\<open>None\<close>).
\<close>

definition relevance_of :: "user \<Rightarrow> article \<Rightarrow> real" where
  "relevance_of u a = (case relevance_scores a (user_id u) of Some r \<Rightarrow> r | None \<Rightarrow> 0)"

definition relevant_articles :: "user \<Rightarrow> article list \<Rightarrow> article list" where
  "relevant_articles u articles = filter (\<lambda>a. user_id u \<in> dom (relevance_scores a)) articles"

definition sorted_articles :: "user \<Rightarrow> article list \<Rightarrow> article list" where
  "sorted_articles u articles = sorted_desc (relevance_of u) (relevant_articles u articles)"

definition selected_articles :: "user \<Rightarrow> article list \<Rightarrow> int option \<Rightarrow> article list" where
  "selected_articles u articles max_articles =
     (let max_articles = (case max_articles of None \<Rightarrow> max_articles_per_newsletter u
                                            | Some n \<Rightarrow> n)
      in py_take max_articles (sorted_articles u articles))"

subsection \<open>Notions of the specification\<close>

text \<open>
  The lexicon of a category in the table of a processor, and the number of keywords of a
  document that are in it: the score the categorizer is specified by.
\<close>

definition lexicon :: "processor \<Rightarrow> string \<Rightarrow> string set" where
  "lexicon p c = (case map_of (category_keywords p) c of Some s \<Rightarrow> s | None \<Rightarrow> {})"

definition overlap :: "processor \<Rightarrow> string \<Rightarrow> string list \<Rightarrow> nat" where
  "overlap p c kws = length (filter (\<lambda>k. k \<in> lexicon p c) kws)"

text \<open>What one keyword adds to the score of \<open>c\<close> in one pass over a table.\<close>

definition hits :: "(string \<times> string set) list \<Rightarrow> string \<Rightarrow> string \<Rightarrow> nat" where
  "hits table kw c = length (filter (\<lambda>(k, lex). k = c \<and> kw \<in> lex) table)"

text \<open>The reader of the worked example of the specification, and the same reader with an exclusion.\<close>

definition demo_reader :: user where
  "demo_reader =
     \<lparr>user_id = ''demo-user'', name = ''Demo User'', email = ''demo@example.com'',
      interests = [''AI'', ''machine learning''], preferred_sources = [''TechCrunch''],
      max_articles_per_newsletter = 10, preferred_categories = [''technology''],
      excluded_keywords = []\<rparr>"

definition wary_reader :: user where
  "wary_reader = demo_reader\<lparr>excluded_keywords := [''Crypto'']\<rparr>"

text \<open>
  A small stand-in for the libraries, for the concrete instances: the tokenizer cuts at
  whitespace, the sentence tokenizer is the splitter above, the lemmatizer knows two plurals,
  and there are four stop words.
\<close>

fun words_acc :: "string \<Rightarrow> string \<Rightarrow> string list" where
  "words_acc acc [] = (if acc = [] then [] else [rev acc])"
| "words_acc acc (c # cs) =
     (if is_space c then (if acc = [] then words_acc [] cs else rev acc # words_acc [] cs)
      else words_acc (c # acc) cs)"

definition singular :: "string \<Rightarrow> string" where
  "singular w =
     (case map_of [(''markets'', ''market''), (''investors'', ''investor'')] w of
        Some l \<Rightarrow> l
      | None \<Rightarrow> w)"

definition demo_library :: library where
  "demo_library =
     \<lparr>word_tokenize = words_acc [],
      sent_tokenize = split_sentences,
      lemmatize = singular,
      stop_words = {''the'', ''a'', ''and'', ''of''},
      tfidf_fit = (\<lambda>contents. True)\<rparr>"

text \<open>An article with the given identifier, content and scores, the other fields at their defaults.\<close>

definition demo_article :: "string \<Rightarrow> string \<Rightarrow> (string \<times> real) list \<Rightarrow> article" where
  "demo_article i c scores =
     \<lparr>article_id = i, title = ''Title'', url = ''http://example.com'', source = ''TechCrunch'',
      published_date = \<lparr>year = 2024, month = 2, day = 29, hour = 6, minute = 5, second = 0,
                        microsecond = 120\<rparr>,
      content = c, category = ''general'', author = None, image_url = None,
      keyword_list = [], summary = None, sentiment_score = 0,
      relevance_scores = map_of scores\<rparr>"

text \<open>
  The score \<open>matches_article\<close> gives a reader for an article, the article after
  \<open>calculate_relevance_for_user\<close> has scored it, and the entries a list of readers writes into
  its relevance map (the last write first).
\<close>

definition relevance_score :: "user \<Rightarrow> article \<Rightarrow> real" where
  "relevance_score u a =
     (case matches_article u (keyword_list a) (source a) (category a) of
        Inr r \<Rightarrow> r
      | Inl e \<Rightarrow> 0)"

definition score_article :: "user \<Rightarrow> article \<Rightarrow> article" where
  "score_article u a = add_user_relevance a (user_id u) (relevance_score u a)"

definition scores_of :: "user list \<Rightarrow> article \<Rightarrow> (string \<times> real) list" where
  "scores_of us a = rev (map (\<lambda>u. (user_id u, relevance_score u a)) us)"

section \<open>Properties\<close>

subsection \<open>Relevance of an article for a reader\<close>

lemma term_match_no_terms: "term_match [] kws = 0"
  by (simp add: term_match_def)

lemma interest_match_pos: "0 < interest_match u kws \<Longrightarrow> interests u \<noteq> []"
  by (auto simp: interest_match_def term_match_no_terms)

lemma interest_term_value:
  "interest_term u kws =
     Inr (if 0 < interest_match u kws
          then min (real (interest_match u kws) / real (length (interests u))) 1 * 1.5 else 0)"
  using interest_match_pos [of u kws]
  by (simp add: interest_term_def truediv_def)

lemma excluded_penalty_range: "0 \<le> excluded_penalty u kws \<and> excluded_penalty u kws \<le> 0.5"
  by (simp add: excluded_penalty_def min_def)

text \<open>
  C1: for all keywords, source, category and reader, \<open>matches_article\<close> returns a score (it
  never divides by zero) and the score is in \<open>[0, 1]\<close>; for a reader with no interests the
  interest term is 0.
\<close>

theorem matches_article_bounded:
  "(\<exists>r. matches_article u kws src cat = Inr r \<and> 0 \<le> r \<and> r \<le> 1) \<and>
   (interests u = [] \<longrightarrow> interest_term u kws = Inr 0)"
proof
  show "\<exists>r. matches_article u kws src cat = Inr r \<and> 0 \<le> r \<and> r \<le> 1"
    by (simp add: matches_article_def interest_term_value Let_def)
  show "interests u = [] \<longrightarrow> interest_term u kws = Inr 0"
    using interest_match_pos [of u kws] by (auto simp: interest_term_value)
qed

lemma excluded_penalty_capped:
  "1 \<le> excluded_match u kws \<Longrightarrow> excluded_penalty u kws = 0.5"
  by (simp add: excluded_penalty_def min_def)

text \<open>
  C7: the penalty for excluded keywords does not stack. Two keyword lists that each match an
  excluded term at least once, with the same interest count, the same source match and the same
  category match, get the same score: the penalty is \<open>min(count, 1) * 0.5\<close>, that is 0.5, for
  both.
\<close>

theorem excluded_penalty_no_stacking:
  assumes "1 \<le> excluded_match u kws1" and "1 \<le> excluded_match u kws2"
    and "interest_match u kws1 = interest_match u kws2"
    and "src1 \<in> set (preferred_sources u) \<longleftrightarrow> src2 \<in> set (preferred_sources u)"
    and "cat1 \<in> set (preferred_categories u) \<longleftrightarrow> cat2 \<in> set (preferred_categories u)"
  shows "matches_article u kws1 src1 cat1 = matches_article u kws2 src2 cat2 \<and>
         excluded_penalty u kws1 = min (real (excluded_match u kws1)) 1 * 0.5 \<and>
         excluded_penalty u kws2 = min (real (excluded_match u kws2)) 1 * 0.5 \<and>
         excluded_penalty u kws1 = excluded_penalty u kws2"
  using assms
  by (simp add: matches_article_def interest_term_value excluded_penalty_capped Let_def min_def)

subsection \<open>The categorizer\<close>

lemma dict_fromkeys_distinct:
  "distinct cs \<Longrightarrow> set cs \<inter> fst ` set d = {} \<Longrightarrow> dict_fromkeys cs d = d @ map (\<lambda>c. (c, 0)) cs"
proof (induction cs arbitrary: d)
  case Nil
  then show ?case by simp
next
  case (Cons c cs)
  have "dict_fromkeys (c # cs) d = dict_fromkeys cs (d @ [(c, 0)])"
    using Cons.prems by auto
  also have "\<dots> = (d @ [(c, 0)]) @ map (\<lambda>c. (c, 0)) cs"
    using Cons.prems by (intro Cons.IH) auto
  finally show ?case by simp
qed

lemma increment_present:
  "c \<in> fst ` set d \<Longrightarrow>
   increment c d = Inr (map (\<lambda>(k, v). (k, v + (if k = c then 1 else 0))) d)"
  by (auto simp: increment_def)

lemma score_keyword_value:
  "fst ` set table \<subseteq> fst ` set d \<Longrightarrow>
   score_keyword kw table d = Inr (map (\<lambda>(k, v). (k, v + hits table kw k)) d)"
proof (induction table arbitrary: d)
  case Nil
  then show ?case by (simp add: hits_def)
next
  case (Cons entry table)
  obtain c lex where entry: "entry = (c, lex)" by (cases entry)
  let ?d' = "map (\<lambda>(k, v). (k, v + (if k = c then 1 else 0))) d"
  have keys: "fst ` set ?d' = fst ` set d" by force
  show ?case
  proof (cases "kw \<in> lex")
    case True
    have "score_keyword kw (entry # table) d = score_keyword kw table ?d'"
      using Cons.prems True by (simp add: entry increment_present)
    also have "\<dots> = Inr (map (\<lambda>(k, v). (k, v + hits table kw k)) ?d')"
      using Cons.prems keys by (intro Cons.IH) auto
    also have "\<dots> = Inr (map (\<lambda>(k, v). (k, v + hits (entry # table) kw k)) d)"
      using True by (auto simp: hits_def entry)
    finally show ?thesis .
  next
    case False
    then show ?thesis using Cons by (auto simp: hits_def entry)
  qed
qed

lemma score_keywords_value:
  "fst ` set table \<subseteq> fst ` set d \<Longrightarrow>
   score_keywords kws table d =
     Inr (map (\<lambda>(k, v). (k, v + sum_list (map (\<lambda>kw. hits table kw k) kws))) d)"
proof (induction kws arbitrary: d)
  case Nil
  then show ?case by simp
next
  case (Cons kw kws)
  let ?d' = "map (\<lambda>(k, v). (k, v + hits table kw k)) d"
  have keys: "fst ` set ?d' = fst ` set d" by force
  have "score_keywords (kw # kws) table d = score_keywords kws table ?d'"
    using Cons.prems by (simp add: score_keyword_value)
  also have "\<dots> = Inr (map (\<lambda>(k, v). (k, v + sum_list (map (\<lambda>kw. hits table kw k) kws))) ?d')"
    using Cons.prems keys by (intro Cons.IH) auto
  finally show ?case by (auto simp: add.assoc)
qed

lemma hits_distinct:
  "distinct (map fst table) \<Longrightarrow>
   hits table kw c = (if kw \<in> (case map_of table c of Some s \<Rightarrow> s | None \<Rightarrow> {}) then 1 else 0)"
proof (induction table)
  case Nil
  then show ?case by (simp add: hits_def)
next
  case (Cons entry table)
  obtain k lex where entry: "entry = (k, lex)" by (cases entry)
  show ?case
  proof (cases "k = c")
    case True
    then have "map_of table c = None" using Cons.prems by (simp add: entry map_of_eq_None_iff)
    then have "hits table kw c = 0" using Cons by simp
    then show ?thesis using True by (simp add: hits_def entry)
  next
    case False
    then show ?thesis using Cons by (simp add: hits_def entry)
  qed
qed

lemma sum_hits_overlap:
  "distinct (map fst (category_keywords p)) \<Longrightarrow>
   sum_list (map (\<lambda>kw. hits (category_keywords p) kw c) kws) = overlap p c kws"
  by (induction kws) (simp_all add: overlap_def lexicon_def hits_distinct)

lemma category_scores_value:
  assumes "distinct (categories p)" and "distinct (map fst (category_keywords p))"
    and "fst ` set (category_keywords p) \<subseteq> set (categories p)"
  shows "score_keywords kws (category_keywords p) (dict_fromkeys (categories p) []) =
           Inr (map (\<lambda>c. (c, overlap p c kws)) (categories p))"
proof -
  have d: "dict_fromkeys (categories p) [] = map (\<lambda>c. (c, 0)) (categories p)"
    using assms(1) by (simp add: dict_fromkeys_distinct)
  have "fst ` set (category_keywords p) \<subseteq> fst ` set (map (\<lambda>c. (c, 0::nat)) (categories p))"
    using assms(3) by force
  then show ?thesis
    using assms(2) by (simp add: d score_keywords_value sum_hits_overlap comp_def)
qed

lemma fold_max_zero: "fold max ys (y::nat) = 0 \<longleftrightarrow> y = 0 \<and> (\<forall>v\<in>set ys. v = 0)"
  by (induction ys arbitrary: y) (auto simp: max_def)

lemma max_default_zero: "max_default vs 0 = 0 \<longleftrightarrow> (\<forall>v\<in>set vs. v = 0)"
  by (cases vs) (auto simp: max_default_def fold_max_zero)

lemma max_by_first_maximal:
  "\<exists>pre post. b # xs = pre @ max_by f b xs # post \<and>
     (\<forall>x\<in>set pre. f x < f (max_by f b xs)) \<and> (\<forall>x\<in>set post. f x \<le> f (max_by f b xs))"
proof (induction xs arbitrary: b)
  case Nil
  show ?case by (rule exI [of _ "[]"]) simp
next
  case (Cons x xs)
  show ?case
  proof (cases "f x > f b")
    case True
    let ?r = "max_by f x xs"
    have eq: "max_by f b (x # xs) = ?r" using True by simp
    from Cons.IH [of x] obtain pre post where
      d: "x # xs = pre @ ?r # post" and lt: "\<forall>y\<in>set pre. f y < f ?r" and le: "\<forall>y\<in>set post. f y \<le> f ?r"
      by blast
    have "x \<in> set pre \<union> insert ?r (set post)" using arg_cong [OF d, of set] by auto
    then have "f x \<le> f ?r" using lt le by auto
    then have "f b < f ?r" using True by simp
    then have "b # x # xs = (b # pre) @ ?r # post \<and> (\<forall>y\<in>set (b # pre). f y < f ?r) \<and>
               (\<forall>y\<in>set post. f y \<le> f ?r)"
      using d lt le by simp
    then show ?thesis unfolding eq by (intro exI)
  next
    case False
    let ?r = "max_by f b xs"
    have eq: "max_by f b (x # xs) = ?r" using False by simp
    from Cons.IH [of b] obtain pre post where
      d: "b # xs = pre @ ?r # post" and lt: "\<forall>y\<in>set pre. f y < f ?r" and le: "\<forall>y\<in>set post. f y \<le> f ?r"
      by blast
    show ?thesis
    proof (cases pre)
      case Nil
      have "b # xs = ?r # post" using d unfolding Nil by (simp only: append_Nil)
      then have "b = ?r" and "xs = post" unfolding list.inject by blast+
      note r = this(1) [symmetric] and post = this(2) [symmetric]
      have "f x \<le> f ?r" using False by (simp add: r)
      then have "b # x # xs = [] @ ?r # (x # post) \<and> (\<forall>y\<in>set []. f y < f ?r) \<and>
                 (\<forall>y\<in>set (x # post). f y \<le> f ?r)"
        using le by (simp add: r post)
      then show ?thesis unfolding eq by (intro exI)
    next
      case (Cons b' pre')
      have "b # xs = b' # (pre' @ ?r # post)" using d unfolding Cons by (simp only: append_Cons)
      then have "b = b'" and "xs = pre' @ ?r # post" unfolding list.inject by blast+
      note b = this(1) [symmetric] and xs = this(2)
      have "f b < f ?r" using lt by (simp add: Cons b)
      then have "f x < f ?r" using False by simp
      then have "b # x # xs = (b # x # pre') @ ?r # post \<and> (\<forall>y\<in>set (b # x # pre'). f y < f ?r) \<and>
                 (\<forall>y\<in>set post. f y \<le> f ?r)"
        using lt le by (simp add: Cons b) (use xs in simp)
      then show ?thesis unfolding eq by (intro exI)
    qed
  qed
qed

lemma categorize_article_general:
  assumes "distinct (categories p)" and "distinct (map fst (category_keywords p))"
    and "fst ` set (category_keywords p) \<subseteq> set (categories p)"
  shows "\<exists>r. categorize_article p body kws = Inr r \<and>
           (if \<forall>c\<in>set (categories p). overlap p c kws = 0 then r = ''general''
            else \<exists>pre post. categories p = pre @ r # post \<and>
                   (\<forall>c\<in>set pre. overlap p c kws < overlap p r kws) \<and>
                   (\<forall>c\<in>set post. overlap p c kws \<le> overlap p r kws))"
proof -
  let ?sc = "map (\<lambda>c. (c, overlap p c kws)) (categories p)"
  have sc: "score_keywords kws (category_keywords p) (dict_fromkeys (categories p) []) = Inr ?sc"
    using assms by (rule category_scores_value)
  have zero: "max_default (map snd ?sc) 0 = 0 \<longleftrightarrow> (\<forall>c\<in>set (categories p). overlap p c kws = 0)"
    by (simp add: max_default_zero comp_def)
  show ?thesis
  proof (cases "\<forall>c\<in>set (categories p). overlap p c kws = 0")
    case True
    then show ?thesis using zero by (simp add: categorize_article_def sc)
  next
    case False
    then obtain c cs where cats: "categories p = c # cs" by (cases "categories p") auto
    let ?f = "\<lambda>c. (c, overlap p c kws)"
    let ?r = "max_by snd (?f c) (map ?f cs)"
    have res: "categorize_article p body kws = Inr (fst ?r)"
    proof -
      have nz: "max_default (map snd ?sc) 0 \<noteq> 0" using False zero by blast
      have "categorize_article p body kws =
              (case ?sc of [] \<Rightarrow> Inl ValueError | item # items \<Rightarrow> Inr (fst (max_by snd item items)))"
        by (simp only: categorize_article_def sc sum.case nz if_False)
      then show ?thesis by (simp add: cats)
    qed
    from max_by_first_maximal [of "?f c" "map ?f cs" snd] obtain pre post where
      d: "?f c # map ?f cs = pre @ ?r # post" and lt: "\<forall>y\<in>set pre. snd y < snd ?r"
      and le: "\<forall>y\<in>set post. snd y \<le> snd ?r"
      by blast
    have "?r \<in> set (map ?f (c # cs))" using arg_cong [OF d, of set] by simp
    then have r: "?r = ?f (fst ?r)" by auto
    have "map fst (?f c # map ?f cs) = c # cs" by (simp add: comp_def)
    then have d': "categories p = map fst pre @ fst ?r # map fst post"
      using d cats by (metis map_append list.simps(9))
    have pre_sub: "set pre \<subseteq> set (map ?f (c # cs))" and post_sub: "set post \<subseteq> set (map ?f (c # cs))"
    proof -
      have "set (map ?f (c # cs)) = set pre \<union> insert ?r (set post)"
        using arg_cong [OF d, of set] by simp
      then show "set pre \<subseteq> set (map ?f (c # cs))" and "set post \<subseteq> set (map ?f (c # cs))"
        by blast+
    qed
    have lt': "\<forall>k\<in>set (map fst pre). overlap p k kws < overlap p (fst ?r) kws"
    proof
      fix k assume "k \<in> set (map fst pre)"
      then obtain y where y: "y \<in> set pre" "k = fst y" by auto
      then have "y = ?f k" using pre_sub by auto
      then have "snd y = overlap p k kws" by simp
      moreover have "snd ?r = overlap p (fst ?r) kws" using arg_cong [OF r, of snd] by simp
      moreover have "snd y < snd ?r" using lt y by blast
      ultimately show "overlap p k kws < overlap p (fst ?r) kws" by simp
    qed
    have le': "\<forall>k\<in>set (map fst post). overlap p k kws \<le> overlap p (fst ?r) kws"
    proof
      fix k assume "k \<in> set (map fst post)"
      then obtain y where y: "y \<in> set post" "k = fst y" by auto
      then have "y = ?f k" using post_sub by auto
      then have "snd y = overlap p k kws" by simp
      moreover have "snd ?r = overlap p (fst ?r) kws" using arg_cong [OF r, of snd] by simp
      moreover have "snd y \<le> snd ?r" using le y by blast
      ultimately show "overlap p k kws \<le> overlap p (fst ?r) kws" by simp
    qed
    have "\<exists>pre' post'. categories p = pre' @ fst ?r # post' \<and>
            (\<forall>k\<in>set pre'. overlap p k kws < overlap p (fst ?r) kws) \<and>
            (\<forall>k\<in>set post'. overlap p k kws \<le> overlap p (fst ?r) kws)"
      using d' lt' le' by blast
    then have "if \<forall>c\<in>set (categories p). overlap p c kws = 0 then fst ?r = ''general''
          else \<exists>pre post. categories p = pre @ fst ?r # post \<and>
                 (\<forall>c\<in>set pre. overlap p c kws < overlap p (fst ?r) kws) \<and>
                 (\<forall>c\<in>set post. overlap p c kws \<le> overlap p (fst ?r) kws)"
      unfolding if_not_P [OF False] .
    with res show ?thesis by blast
  qed
qed

lemma default_table_keys: "map fst initialize_category_keywords = default_categories"
  by (simp add: initialize_category_keywords_def default_categories_def)

lemma default_categories_distinct: "distinct default_categories"
  by (simp add: default_categories_def)

text \<open>
  C2: with the default categories, the categorizer returns a category for every keyword list:
  \<open>general\<close> when no keyword is in any lexicon, and otherwise the first category, in the order
  of the table, whose lexicon holds the largest number of the keywords (every category before
  it holds fewer, every category after it holds at most as many).
\<close>

theorem categorize_article_first_maximal:
  "\<exists>r. categorize_article (new_processor None kmin kmax slen) body kws = Inr r \<and>
     (if \<forall>c\<in>set default_categories. overlap (new_processor None kmin kmax slen) c kws = 0
      then r = ''general''
      else \<exists>pre post. default_categories = pre @ r # post \<and>
             (\<forall>c\<in>set pre. overlap (new_processor None kmin kmax slen) c kws
                              < overlap (new_processor None kmin kmax slen) r kws) \<and>
             (\<forall>c\<in>set post. overlap (new_processor None kmin kmax slen) c kws
                              \<le> overlap (new_processor None kmin kmax slen) r kws))"
proof -
  let ?p = "new_processor None kmin kmax slen"
  have c: "categories ?p = default_categories" and t: "category_keywords ?p = initialize_category_keywords"
    by (simp_all add: new_processor_def)
  have "distinct (categories ?p)" by (simp add: c default_categories_distinct)
  moreover have "distinct (map fst (category_keywords ?p))"
    by (simp add: t default_table_keys default_categories_distinct)
  moreover have "fst ` set (category_keywords ?p) \<subseteq> set (categories ?p)"
    using default_table_keys by (metis c t set_map subset_refl)
  ultimately show ?thesis
    using categorize_article_general [of "?p" body kws] by (simp only: c)
qed

subsection \<open>The sentiment score\<close>

text \<open>
  C3: the sentiment of every text is in \<open>[-1, 1]\<close>. It is 0 when no word of the text is in the
  positive or in the negative lexicon, in particular for the empty text (which has no token),
  and \<open>(positive - negative) / (positive + negative)\<close> otherwise.
\<close>

theorem analyze_sentiment_bounded:
  "- 1 \<le> analyze_sentiment L text \<and> analyze_sentiment L text \<le> 1 \<and>
   ((\<forall>w\<in>set (sentiment_words L text). w \<notin> positive_words \<and> w \<notin> negative_words)
      \<longrightarrow> analyze_sentiment L text = 0) \<and>
   (\<not> (\<forall>w\<in>set (sentiment_words L text). w \<notin> positive_words \<and> w \<notin> negative_words)
      \<longrightarrow> analyze_sentiment L text =
            (real (pos_count L text) - real (neg_count L text))
              / (real (pos_count L text) + real (neg_count L text))) \<and>
   (word_tokenize L '''' = [] \<longrightarrow> analyze_sentiment L '''' = 0)"
proof -
  let ?p = "pos_count L text" and ?n = "neg_count L text"
  have zero: "?p + ?n = 0 \<longleftrightarrow>
      (\<forall>w\<in>set (sentiment_words L text). w \<notin> positive_words \<and> w \<notin> negative_words)"
    by (auto simp: pos_count_def neg_count_def filter_empty_conv)
  have val: "analyze_sentiment L text = (if ?p + ?n = 0 then 0 else (real ?p - real ?n) / (real ?p + real ?n))"
    by (simp add: analyze_sentiment_def Let_def)
  have lo: "- 1 \<le> analyze_sentiment L text"
    unfolding val by (simp add: le_divide_eq)
  have hi: "analyze_sentiment L text \<le> 1"
    unfolding val by (simp add: divide_le_eq)
  have empty: "word_tokenize L '''' = [] \<longrightarrow> analyze_sentiment L '''' = 0"
    by (simp add: analyze_sentiment_def pos_count_def neg_count_def sentiment_words_def lower_def)
  show ?thesis using lo hi val zero empty by simp
qed

subsection \<open>The summarizer\<close>

lemma split_acc_not_empty: "split_acc acc s \<noteq> []"
  by (induction acc s rule: split_acc.induct) auto

lemma split_sentences_not_empty: "split_sentences text \<noteq> []"
  by (simp add: split_sentences_def split_acc_not_empty)

text \<open>
  C5: a text with at most as many sentences as the target is returned unchanged by the
  summarizer of the pipeline, \<open>ArticleProcessor.generate_summary\<close>.
\<close>

theorem generate_summary_short_circuit:
  "int (length (split_sentences text)) \<le> summarize_length p \<Longrightarrow> generate_summary L p text = text"
  by (simp add: generate_summary_def Let_def split_sentences_not_empty)

text \<open>
  \<open>text_utils.generate_summary\<close>, which the pipeline does not call, cleans the text first: a
  short text comes back as the sentences of the cleaned text, joined by single spaces.
\<close>

lemma tu_generate_summary_short:
  "int (length (sent_tokenize L (clean_text text))) \<le> n \<Longrightarrow>
   tu_generate_summary L text n = join_space (sent_tokenize L (clean_text text))"
  by (simp add: tu_generate_summary_def extract_sentences_def)

lemma nth_increasing_subseq:
  assumes "sorted_wrt (<) js" and "set js \<subseteq> {..<length xs}"
  shows "subseq (map (\<lambda>i. xs ! i) js) xs"
proof -
  let ?f = "filter (\<lambda>i. i \<in> set js) [0 ..< length xs]"
  have "?f = js"
  proof (rule sorted_distinct_set_unique)
    show "sorted ?f" by (simp add: sorted_wrt_filter)
    show "distinct ?f" by simp
    show "sorted js" "distinct js" using assms(1) by (simp_all add: strict_sorted_iff)
    show "set ?f = set js" using assms(2) by auto
  qed
  then have "map (\<lambda>i. xs ! i) js = map (\<lambda>i. xs ! i) ?f" by simp
  moreover have "subseq (map (\<lambda>i. xs ! i) ?f) (map (\<lambda>i. xs ! i) [0 ..< length xs])"
    by (rule subseq_map) simp
  ultimately show ?thesis by (simp add: map_nth)
qed

lemma distinct_sorted_desc: "distinct (sorted_desc f xs) = distinct xs"
  by (simp add: sorted_desc_def)

lemma set_sorted_desc: "set (sorted_desc f xs) = set xs"
  by (simp add: sorted_desc_def)

lemma distinct_py_take: "distinct xs \<Longrightarrow> distinct (py_take n xs)"
  by (simp add: py_take_def)

lemma set_py_take: "set (py_take n xs) \<subseteq> set xs"
  by (simp add: py_take_def set_take_subset)

lemma chosen_indices_increasing:
  assumes "distinct js"
  shows "sorted_wrt (<) (sort (py_take n (sorted_desc f js))) \<and>
         set (sort (py_take n (sorted_desc f js))) \<subseteq> set js"
  using assms set_py_take [of n "sorted_desc f js"]
  by (simp add: strict_sorted_iff distinct_py_take distinct_sorted_desc set_sorted_desc)

lemma top_indices_increasing:
  "sorted_wrt (<) (top_indices L p text) \<and>
   set (top_indices L p text) \<subseteq> {..<length (split_sentences text)}"
proof -
  have "distinct [0 ..< length (split_sentences text)]" by simp
  from chosen_indices_increasing [OF this] show ?thesis
    by (simp add: top_indices_def Let_def lessThan_atLeast0)
qed

lemma tu_top_indices_increasing:
  "sorted_wrt (<) (tu_top_indices L text n) \<and>
   set (tu_top_indices L text n) \<subseteq> {..<length (sent_tokenize L (clean_text text))}"
proof -
  let ?s = "sent_tokenize L (clean_text text)"
  let ?js = "filter (\<lambda>i. word_count L (?s ! i) \<noteq> 0) [0 ..< length ?s]"
  let ?f = "\<lambda>i. tu_sentence_score L (calculate_word_frequency L (clean_text text)) (?s ! i)"
  have eq: "tu_top_indices L text n = sort (py_take n (sorted_desc ?f ?js))"
    by (simp add: tu_top_indices_def Let_def)
  have "distinct ?js" by simp
  from chosen_indices_increasing [OF this, of n ?f]
  have "sorted_wrt (<) (sort (py_take n (sorted_desc ?f ?js)))"
    and "set (sort (py_take n (sorted_desc ?f ?js))) \<subseteq> set ?js"
    by blast+
  moreover have "set ?js \<subseteq> {..<length ?s}" by auto
  ultimately show ?thesis unfolding eq by blast
qed

text \<open>
  C6: whatever the scores are, the indices of the chosen sentences are strictly increasing and
  in range, so the chosen sentences are a subsequence of the sentences of the text, and the
  summary joins them in that order. The same holds for \<open>extract_sentences\<close> of the text
  utilities.
\<close>

theorem summary_keeps_source_order:
  "sorted_wrt (<) (top_indices L p text) \<and>
   set (top_indices L p text) \<subseteq> {..<length (split_sentences text)} \<and>
   subseq (map (\<lambda>i. split_sentences text ! i) (top_indices L p text)) (split_sentences text) \<and>
   generate_summary L p text =
     (if int (length (split_sentences text)) \<le> summarize_length p then text
      else join_space (map (\<lambda>i. split_sentences text ! i) (top_indices L p text))) \<and>
   subseq (extract_sentences L text n) (sent_tokenize L (clean_text text))"
proof -
  have a: "sorted_wrt (<) (top_indices L p text)"
    and b: "set (top_indices L p text) \<subseteq> {..<length (split_sentences text)}"
    using top_indices_increasing by blast+
  have c: "subseq (map (\<lambda>i. split_sentences text ! i) (top_indices L p text)) (split_sentences text)"
    using a b by (rule nth_increasing_subseq)
  have d: "generate_summary L p text =
     (if int (length (split_sentences text)) \<le> summarize_length p then text
      else join_space (map (\<lambda>i. split_sentences text ! i) (top_indices L p text)))"
    by (simp add: generate_summary_def Let_def split_sentences_not_empty)
  have e: "subseq (extract_sentences L text n) (sent_tokenize L (clean_text text))"
    using tu_top_indices_increasing [of L "text" n]
    by (simp add: extract_sentences_def Let_def nth_increasing_subseq)
  show ?thesis using a b c d e by blast
qed

subsection \<open>Selection for a newsletter\<close>

lemma sorted_desc_stable:
  "filter (\<lambda>x. f x = k) (sorted_desc f xs) = filter (\<lambda>x. f x = k) xs"
  by (simp add: sorted_desc_def rev_filter [symmetric] sort_key_stable)

lemma sorted_desc_descending:
  "sorted_wrt (\<lambda>x y. f x \<ge> f y) (sorted_desc f xs)"
proof -
  have "sorted (map f (sort_key f (rev xs)))" by simp
  then have "sorted_wrt (\<lambda>x y. f x \<le> f y) (sort_key f (rev xs))"
    by (simp add: sorted_map)
  then show ?thesis by (simp add: sorted_desc_def sorted_wrt_rev)
qed

lemma mset_sorted_desc: "mset (sorted_desc f xs) = mset xs"
  by (simp add: sorted_desc_def)

text \<open>
  C8: for a reader whose limit is not negative, the selection keeps exactly the articles with
  a score for the reader (in the order of the input), sorts them by descending score, articles
  with equal scores staying in the order of the input, and takes the first \<open>limit\<close> of them.
\<close>

theorem selection_ranked_and_cut:
  assumes "0 \<le> max_articles_per_newsletter u"
  shows "relevant_articles u articles = filter (\<lambda>a. relevance_scores a (user_id u) \<noteq> None) articles \<and>
         mset (sorted_articles u articles) = mset (relevant_articles u articles) \<and>
         sorted_wrt (\<lambda>a b. relevance_of u a \<ge> relevance_of u b) (sorted_articles u articles) \<and>
         (\<forall>v. filter (\<lambda>a. relevance_of u a = v) (sorted_articles u articles)
               = filter (\<lambda>a. relevance_of u a = v) (relevant_articles u articles)) \<and>
         selected_articles u articles None
           = take (nat (max_articles_per_newsletter u)) (sorted_articles u articles) \<and>
         int (length (selected_articles u articles None)) \<le> max_articles_per_newsletter u"
proof -
  have a: "relevant_articles u articles = filter (\<lambda>a. relevance_scores a (user_id u) \<noteq> None) articles"
    by (simp add: relevant_articles_def dom_def)
  have b: "mset (sorted_articles u articles) = mset (relevant_articles u articles)"
    by (simp add: sorted_articles_def mset_sorted_desc)
  have c: "sorted_wrt (\<lambda>a b. relevance_of u a \<ge> relevance_of u b) (sorted_articles u articles)"
    unfolding sorted_articles_def by (rule sorted_desc_descending)
  have d: "\<forall>v. filter (\<lambda>a. relevance_of u a = v) (sorted_articles u articles)
               = filter (\<lambda>a. relevance_of u a = v) (relevant_articles u articles)"
    by (simp add: sorted_articles_def sorted_desc_stable)
  have e: "selected_articles u articles None
           = take (nat (max_articles_per_newsletter u)) (sorted_articles u articles)"
    using assms by (simp add: selected_articles_def py_take_def)
  have f: "int (length (selected_articles u articles None)) \<le> max_articles_per_newsletter u"
    using assms unfolding e by simp
  show ?thesis using a b c d e f by blast
qed

subsection \<open>Keyword extraction\<close>

lemma bump_keys:
  "map fst (bump x d) = (if x \<in> fst ` set d then map fst d else map fst d @ [x])"
  by (induction d) (auto split: if_splits)

lemma bump_key_set: "fst ` set (bump x d) = insert x (fst ` set d)"
  using arg_cong [OF bump_keys [of x d], of set] by (auto split: if_splits)

lemma counter_acc_keys:
  "distinct (map fst d) \<Longrightarrow>
   distinct (map fst (foldl (\<lambda>acc x. bump x acc) d xs)) \<and>
   set (map fst (foldl (\<lambda>acc x. bump x acc) d xs)) = fst ` set d \<union> set xs"
proof (induction xs arbitrary: d)
  case Nil
  then show ?case by simp
next
  case (Cons x xs)
  have "distinct (map fst (bump x d))" using Cons.prems by (simp add: bump_keys)
  from Cons.IH [OF this] show ?case by (simp add: bump_key_set)
qed

lemma counter_keys: "distinct (map fst (counter xs)) \<and> set (map fst (counter xs)) = set xs"
  using counter_acc_keys [of "[]" xs] by (simp add: counter_def)

lemma most_common_keys:
  assumes "distinct (map fst c)"
  shows "distinct (map fst (most_common n c)) \<and>
         set (map fst (most_common n c)) \<subseteq> set (map fst c) \<and>
         length (most_common n c) \<le> nat n"
proof -
  have "distinct (map fst (sorted_desc snd c))"
    using assms by (simp add: distinct_map sorted_desc_def)
  then have "distinct (map fst (most_common n c))"
    by (simp add: most_common_def take_map [symmetric])
  moreover have "set (most_common n c) \<subseteq> set c"
    using set_take_subset [of "nat n" "sorted_desc snd c"] by (simp add: most_common_def sorted_desc_def)
  ultimately show ?thesis by (auto simp: most_common_def)
qed

lemma extract_keywords_cap_distinct:
  "distinct (extract_keywords L p text) \<and>
   length (extract_keywords L p text) \<le> nat (keyword_max_count p) \<and>
   set (extract_keywords L p text)
     \<subseteq> lemmatize L ` {t \<in> set (word_tokenize L (lower text)). keeps_token L p t}"
proof -
  let ?f = "map (lemmatize L) (filter (keeps_token L p) (word_tokenize L (lower text)))"
  have eq: "extract_keywords L p text = map fst (most_common (keyword_max_count p) (counter ?f))"
    by (simp add: extract_keywords_def Let_def)
  from most_common_keys [of "counter ?f" "keyword_max_count p"] counter_keys [of ?f]
  show ?thesis unfolding eq by auto
qed

lemma tu_extract_keywords_cap_distinct:
  "distinct (tu_extract_keywords L text k m) \<and>
   length (tu_extract_keywords L text k m) \<le> nat k \<and>
   set (tu_extract_keywords L text k m)
     \<subseteq> lemmatize L ` {t \<in> set (word_tokenize L (lower (clean_text text))).
                          isalpha t \<and> t \<notin> stop_words L \<and> int (length t) \<ge> m}"
proof -
  let ?f = "map (lemmatize L) (filter (\<lambda>word. isalpha word \<and> word \<notin> stop_words L \<and> int (length word) \<ge> m)
               (word_tokenize L (lower (clean_text text))))"
  have eq: "tu_extract_keywords L text k m = map fst (most_common k (counter ?f))"
    by (simp add: tu_extract_keywords_def Let_def)
  from most_common_keys [of "counter ?f" k] counter_keys [of ?f]
  show ?thesis unfolding eq by auto
qed

text \<open>
  The filter of \<open>ArticleProcessor.extract_keywords\<close> keeps the ellipsis, whatever the
  libraries are, unless it is listed as a stop word.
\<close>

lemma ellipsis_not_in_punctuation: "\<not> str_in ''...'' punctuation"
  by code_simp

lemma keeps_token_ellipsis:
  "''...'' \<notin> stop_words L \<Longrightarrow> keeps_token L default_processor ''...''"
  by (simp add: keeps_token_def ellipsis_not_in_punctuation default_processor_def
      new_processor_def isdigit_def is_digit_char_def)

text \<open>
  C4: the keyword list is meant to hold no pure-punctuation token.
  \<open>ArticleProcessor.extract_keywords\<close> tests \<^verbatim>\<open>token not in string.punctuation\<close>, which asks
  whether the token is a substring of the 32 punctuation characters; the ellipsis \<^verbatim>\<open>...\<close> is
  not, so it passes the filter and becomes a keyword. \<open>text_utils.extract_keywords\<close>, which
  tests \<^verbatim>\<open>word.isalpha()\<close>, drops it on the same text.
\<close>

theorem extract_keywords_keeps_ellipsis:
  "extract_keywords demo_library default_processor ''Markets rally ... investors cheer''
     = [''market'', ''rally'', ''...'', ''investor'', ''cheer''] \<and>
   list_all (\<lambda>c. c \<in> set punctuation) ''...'' \<and>
   tu_extract_keywords demo_library ''Markets rally ... investors cheer'' 15 3
     = [''market'', ''rally'', ''investor'', ''cheer'']"
  by code_simp

subsection \<open>Processing twice\<close>

lemma process_article_value:
  "process_article L p a =
     (case categorize_article p (content a) (extract_keywords L p (content a)) of
        Inl e \<Rightarrow> Inl e
      | Inr c \<Rightarrow> Inr (a\<lparr>keyword_list := extract_keywords L p (content a),
                       category := c,
                       sentiment_score := analyze_sentiment L (content a),
                       summary := Some (generate_summary L p (content a))\<rparr>))"
  by (simp add: process_article_def Let_def split: sum.splits)

lemma process_article_again:
  "process_article L p a = Inr a' \<Longrightarrow> process_article L p (a'\<lparr>relevance_scores := m\<rparr>) = Inr (a'\<lparr>relevance_scores := m\<rparr>)"
  by (auto simp: process_article_value split: sum.splits)

lemma process_article_fixed:
  "process_article L p a = Inr a' \<Longrightarrow> process_article L p a' = Inr a'"
  using process_article_again [of L p a a' "relevance_scores a'"] by simp

lemma process_each_results:
  "a' \<in> set (process_each L p as) \<Longrightarrow> \<exists>a. process_article L p a = Inr a'"
  by (induction as) (auto split: sum.splits)

lemma process_each_fixed:
  "\<forall>a\<in>set as. process_article L p a = Inr a \<Longrightarrow> process_each L p as = as"
  by (induction as) auto

lemma process_articles_fixed:
  assumes "\<forall>a\<in>set as. process_article L p a = Inr a"
  shows "process_articles L p as = as"
proof (cases as)
  case Nil
  then show ?thesis by (simp add: process_articles_def)
next
  case (Cons a rest)
  have each: "process_each L p as = as" using assms by (rule process_each_fixed)
  have "process_article L p a = Inr a" using assms Cons by simp
  then show ?thesis using each Cons
    by (cases rest) (simp_all add: process_articles_def Let_def)
qed

lemma process_articles_results:
  "a' \<in> set (process_articles L p as) \<Longrightarrow> \<exists>a. process_article L p a = Inr a'"
  using process_each_results [of a' L p as]
  by (auto simp: process_articles_def Let_def split: if_splits sum.splits)

lemma process_articles_idem:
  "process_articles L p (process_articles L p as) = process_articles L p as"
proof (rule process_articles_fixed, rule ballI)
  fix a' assume "a' \<in> set (process_articles L p as)"
  then obtain a where "process_article L p a = Inr a'"
    using process_articles_results by blast
  then show "process_article L p a' = Inr a'" by (rule process_article_fixed)
qed

lemma matches_article_is_relevance_score:
  "matches_article u (keyword_list a) (source a) (category a) = Inr (relevance_score u a)"
  by (simp add: relevance_score_def matches_article_def interest_term_value Let_def)

lemma calculate_relevance_value:
  "calculate_relevance_for_user as u = Inr (map (score_article u) as)"
  by (induction as) (simp_all add: matches_article_is_relevance_score score_article_def)

lemma relevance_score_update [simp]:
  "relevance_score u (a\<lparr>relevance_scores := m\<rparr>) = relevance_score u a"
  by (simp add: relevance_score_def)

lemma score_article_idem: "score_article u (score_article u a) = score_article u a"
  by (simp add: score_article_def add_user_relevance_def)

lemma calculate_relevance_idem:
  "\<exists>as'. calculate_relevance_for_user as u = Inr as' \<and> calculate_relevance_for_user as' u = Inr as'"
  by (simp add: calculate_relevance_value score_article_idem)

lemma fold_score_article:
  "fold score_article us a = a\<lparr>relevance_scores := relevance_scores a ++ map_of (scores_of us a)\<rparr>"
proof (induction us arbitrary: a)
  case Nil
  then show ?case by (simp add: scores_of_def)
next
  case (Cons u us)
  let ?r = "relevance_score u a"
  have step: "score_article u a = a\<lparr>relevance_scores := (relevance_scores a)(user_id u \<mapsto> ?r)\<rparr>"
    by (simp add: score_article_def add_user_relevance_def)
  have s: "scores_of us (score_article u a) = scores_of us a"
    by (simp add: scores_of_def step)
  have eq: "(relevance_scores a)(user_id u \<mapsto> ?r) ++ map_of (scores_of us a)
              = relevance_scores a ++ map_of (scores_of (u # us) a)"
    by (simp add: scores_of_def map_add_def fun_eq_iff split: option.splits)
  have "fold score_article (u # us) a = fold score_article us (score_article u a)" by simp
  also have "\<dots> = (score_article u a)\<lparr>relevance_scores :=
      relevance_scores (score_article u a) ++ map_of (scores_of us (score_article u a))\<rparr>"
    by (rule Cons.IH)
  also have "\<dots> = a\<lparr>relevance_scores :=
      (relevance_scores a)(user_id u \<mapsto> ?r) ++ map_of (scores_of us a)\<rparr>"
    unfolding s by (simp add: step)
  finally show ?case unfolding eq .
qed

lemma map_add_twice: "m ++ g ++ g = m ++ g"
  by (simp add: map_add_def fun_eq_iff split: option.splits)

lemma score_for_users_value:
  "score_for_users as us = Inr (map (fold score_article us) as)"
  by (induction us arbitrary: as) (simp_all add: calculate_relevance_value)

lemma fold_score_article_idem:
  "fold score_article us (fold score_article us a) = fold score_article us a"
proof -
  have "scores_of us (a\<lparr>relevance_scores := relevance_scores a ++ map_of (scores_of us a)\<rparr>) = scores_of us a"
    by (simp add: scores_of_def)
  then show ?thesis by (simp add: fold_score_article map_add_twice)
qed

lemma process_article_scored:
  "process_article L p a = Inr a \<Longrightarrow> process_article L p (fold score_article us a) = Inr (fold score_article us a)"
  unfolding fold_score_article by (rule process_article_again)

text \<open>
  C9: processing is idempotent. Processing the processed articles again returns them
  unchanged (same keywords, category, sentiment and summary); scoring the scored articles
  again for the same reader returns them unchanged (the same value is written into the
  relevance map); and so does a second run of the whole pipeline on the result of the first,
  for any list of readers.
\<close>

theorem pipeline_idempotent:
  "process_articles L p (process_articles L p as) = process_articles L p as \<and>
   (\<exists>as'. calculate_relevance_for_user as u = Inr as' \<and>
           calculate_relevance_for_user as' u = Inr as') \<and>
   (\<exists>as'. process_data L p us as = Inr as' \<and> process_data L p us as' = Inr as')"
proof -
  let ?P = "process_articles L p as"
  let ?R = "map (fold score_article us) ?P"
  have fixed: "\<forall>a\<in>set ?R. process_article L p a = Inr a"
  proof
    fix a assume "a \<in> set ?R"
    then obtain b where b: "b \<in> set ?P" and a: "a = fold score_article us b" by auto
    from b obtain c where "process_article L p c = Inr b"
      using process_articles_results by blast
    then have "process_article L p b = Inr b" by (rule process_article_fixed)
    then show "process_article L p a = Inr a" unfolding a by (rule process_article_scored)
  qed
  have first: "process_data L p us as = Inr ?R"
    by (simp add: process_data_def score_for_users_value)
  have "process_data L p us ?R = Inr (map (fold score_article us) ?R)"
    using process_articles_fixed [OF fixed] by (simp add: process_data_def score_for_users_value)
  also have "map (fold score_article us) ?R = ?R"
    by (simp add: fold_score_article_idem)
  finally have second: "process_data L p us ?R = Inr ?R" .
  show ?thesis
    using process_articles_idem [of L p as] calculate_relevance_idem [of as u] first second
    by blast
qed

subsection \<open>Serialization of an article\<close>

lemma digit_cases:
  assumes "k < (10::nat)"
  obtains "k = 0" | "k = 1" | "k = 2" | "k = 3" | "k = 4" | "k = 5" | "k = 6" | "k = 7" | "k = 8" | "k = 9"
proof -
  have "k \<in> set [0 ..< 10]" using assms by simp
  then have "k \<in> {0, 1, 2, 3, 4, 5, 6, 7, 8, 9}"
    by (auto simp: upt_conv_Cons)
  then show thesis using that by blast
qed

lemma is_digit_char_digit_char [simp]: "is_digit_char (digit_char n)"
proof -
  have "n mod 10 < 10" by simp
  then show ?thesis
    by (rule digit_cases) (simp_all add: is_digit_char_def digit_char_def)
qed

lemma digit_val_digit_char [simp]: "digit_val (digit_char n) = n mod 10"
proof -
  have "n mod 10 < 10" by simp
  then show ?thesis
    by (rule digit_cases) (simp_all add: digit_val_def digit_char_def)
qed

lemma length_zfill [simp]: "length (zfill k n) = k"
  by (induction k arbitrary: n) simp_all

lemma list_all_zfill [simp]: "list_all is_digit_char (zfill k n)"
  by (induction k arbitrary: n) simp_all

lemma foldl_zfill:
  "foldl (\<lambda>acc c. 10 * acc + digit_val c) a (zfill k n) = a * 10 ^ k + n mod 10 ^ k"
proof (induction k arbitrary: n)
  case 0
  then show ?case by simp
next
  case (Suc k)
  have m: "n mod (10 * 10 ^ k) = 10 * (n div 10 mod 10 ^ k) + n mod 10"
    by (rule mod_mult2_eq)
  have "foldl (\<lambda>acc c. 10 * acc + digit_val c) a (zfill (Suc k) n)
          = 10 * (a * 10 ^ k + n div 10 mod 10 ^ k) + n mod 10"
    by (simp add: Suc.IH)
  then show ?case using m by (simp add: algebra_simps)
qed

lemma parse_digits_zfill:
  "0 < k \<Longrightarrow> n < 10 ^ k \<Longrightarrow> parse_digits (zfill k n) = Some n"
proof -
  assume k: "0 < k" and n: "n < 10 ^ k"
  have "zfill k n \<noteq> []" using k by (metis length_zfill length_0_conv less_numeral_extra(3))
  then show ?thesis using n by (simp add: parse_digits_def isdigit_def foldl_zfill)
qed

lemma fromisoformat_isoformat:
  assumes "valid_datetime d"
  shows "fromisoformat (isoformat d) = Inr d"
proof -
  have y: "parse_digits (zfill 4 (year d)) = Some (year d)"
    and mo: "parse_digits (zfill 2 (month d)) = Some (month d)"
    and h: "parse_digits (zfill 2 (hour d)) = Some (hour d)"
    and mi: "parse_digits (zfill 2 (minute d)) = Some (minute d)"
    and s: "parse_digits (zfill 2 (second d)) = Some (second d)"
    and us: "parse_digits (zfill 6 (microsecond d)) = Some (microsecond d)"
    using assms by (simp_all add: valid_datetime_def parse_digits_zfill)
  have "day d \<le> 31" using assms by (simp add: valid_datetime_def days_in_month_def split: if_splits)
  then have dd: "parse_digits (zfill 2 (day d)) = Some (day d)"
    by (simp add: parse_digits_zfill)
  have rec: "\<lparr>year = year d, month = month d, day = day d, hour = hour d, minute = minute d,
              second = second d, microsecond = microsecond d\<rparr> = d"
    by simp
  show ?thesis
  proof (cases "microsecond d = 0")
    case True
    have "fromisoformat (isoformat d) =
            (let d' = \<lparr>year = year d, month = month d, day = day d, hour = hour d,
                        minute = minute d, second = second d, microsecond = 0\<rparr>
             in if valid_datetime d' then Inr d' else Inl ValueError)"
      using True
      by (simp add: fromisoformat_def isoformat_def digits_at_def nth_append y mo dd h mi s)
    moreover have "\<lparr>year = year d, month = month d, day = day d, hour = hour d,
                     minute = minute d, second = second d, microsecond = 0\<rparr> = d"
      using True by simp
    ultimately have "fromisoformat (isoformat d) = (if valid_datetime d then Inr d else Inl ValueError)"
      unfolding Let_def by (simp only:)
    then show ?thesis using assms by simp
  next
    case False
    have "fromisoformat (isoformat d) =
            (let d' = \<lparr>year = year d, month = month d, day = day d, hour = hour d,
                        minute = minute d, second = second d, microsecond = microsecond d\<rparr>
             in if valid_datetime d' then Inr d' else Inl ValueError)"
      using False
      by (simp add: fromisoformat_def isoformat_def digits_at_def nth_append y mo dd h mi s us)
    then have "fromisoformat (isoformat d) = (if valid_datetime d then Inr d else Inl ValueError)"
      unfolding Let_def rec .
    then show ?thesis using assms by simp
  qed
qed

lemma to_dict_lookups:
  "to_dict a ''id'' = Some (Str (article_id a))"
  "to_dict a ''title'' = Some (Str (title a))"
  "to_dict a ''url'' = Some (Str (url a))"
  "to_dict a ''source'' = Some (Str (source a))"
  "to_dict a ''published_date'' = Some (Str (isoformat (published_date a)))"
  "to_dict a ''content'' = Some (Str (content a))"
  "to_dict a ''category'' = Some (Str (category a))"
  "to_dict a ''author'' = Some (case author a of None \<Rightarrow> NoneVal | Some s \<Rightarrow> Str s)"
  "to_dict a ''image_url'' = Some (case image_url a of None \<Rightarrow> NoneVal | Some s \<Rightarrow> Str s)"
  "to_dict a ''keywords'' = Some (StrList (keyword_list a))"
  "to_dict a ''summary'' = Some (case summary a of None \<Rightarrow> NoneVal | Some s \<Rightarrow> Str s)"
  "to_dict a ''sentiment_score'' = Some (Float (sentiment_score a))"
  "to_dict a ''relevance_scores'' = Some (Scores (relevance_scores a))"
  by (simp_all add: to_dict_def)

lemma as_opt_str_roundtrip:
  "as_opt_str (case x of None \<Rightarrow> NoneVal | Some s \<Rightarrow> Str s) = Inr x"
  by (cases x) (simp_all add: as_opt_str_def)

text \<open>
  C10: for an article whose publication date is a (valid) datetime, \<open>from_dict\<close> of its
  \<open>to_dict\<close> is the article itself, field for field; the date comes back from its ISO string.
\<close>

theorem article_dict_roundtrip:
  assumes "valid_datetime (published_date a)"
  shows "from_dict (to_dict a) = Inr a"
proof -
  have date: "parse_pub_date (to_dict a) = Inr (published_date a)"
    using assms
    by (simp add: parse_pub_date_def bind_def getitem_def to_dict_lookups fromisoformat_isoformat)
  have "from_dict (to_dict a) =
          Inr \<lparr>article_id = article_id a, title = title a, url = url a, source = source a,
               published_date = published_date a, content = content a, category = category a,
               author = author a, image_url = image_url a, keyword_list = keyword_list a,
               summary = summary a, sentiment_score = sentiment_score a,
               relevance_scores = relevance_scores a\<rparr>"
    by (simp add: from_dict_def date bind_def getitem_def get_default_def to_dict_lookups
        as_str_def as_opt_str_roundtrip as_str_list_def as_float_def as_scores_def)
  then show ?thesis by simp
qed

section \<open>Concrete instances\<close>

lemma spec_example:
  "matches_article demo_reader [''ai'', ''startup'', ''funding''] ''TechCrunch'' ''technology''
     = Inr 0.6875"
  by code_simp

theorem matches_article_bounded_witness:
  "interests (demo_reader\<lparr>interests := []\<rparr>) = [] \<and>
   interest_term (demo_reader\<lparr>interests := []\<rparr>) [''ai'', ''startup''] = Inr 0 \<and>
   matches_article (demo_reader\<lparr>interests := []\<rparr>) [''ai'', ''startup''] ''TechCrunch''
     ''technology'' = Inr 0.5"
proof -
  have score: "matches_article (demo_reader\<lparr>interests := []\<rparr>) [''ai'', ''startup'']
                 ''TechCrunch'' ''technology'' = Inr 0.5"
    by code_simp
  show ?thesis
    using matches_article_bounded [of "demo_reader\<lparr>interests := []\<rparr>" "[''ai'', ''startup'']"
        "''TechCrunch''" "''technology''"] score
    by simp
qed

theorem excluded_penalty_no_stacking_witness:
  "excluded_match wary_reader [''ai'', ''crypto''] = 1 \<and>
   excluded_match wary_reader [''ai'', ''crypto'', ''cryptocurrency''] = 2 \<and>
   interest_match wary_reader [''ai'', ''crypto''] = 1 \<and>
   interest_match wary_reader [''ai'', ''crypto'', ''cryptocurrency''] = 1 \<and>
   matches_article wary_reader [''ai'', ''crypto''] ''TechCrunch'' ''technology'' = Inr 0.5625 \<and>
   matches_article wary_reader [''ai'', ''crypto'', ''cryptocurrency''] ''TechCrunch''
     ''technology'' = Inr 0.5625"
proof -
  have counts:
    "excluded_match wary_reader [''ai'', ''crypto''] = 1"
    "excluded_match wary_reader [''ai'', ''crypto'', ''cryptocurrency''] = 2"
    "interest_match wary_reader [''ai'', ''crypto''] = 1"
    "interest_match wary_reader [''ai'', ''crypto'', ''cryptocurrency''] = 1"
    by code_simp+
  have one: "matches_article wary_reader [''ai'', ''crypto''] ''TechCrunch'' ''technology''
               = Inr 0.5625"
    by code_simp
  have "matches_article wary_reader [''ai'', ''crypto''] ''TechCrunch'' ''technology''
          = matches_article wary_reader [''ai'', ''crypto'', ''cryptocurrency''] ''TechCrunch''
              ''technology''"
    using excluded_penalty_no_stacking [of wary_reader "[''ai'', ''crypto'']"
        "[''ai'', ''crypto'', ''cryptocurrency'']" "''TechCrunch''" "''TechCrunch''"
        "''technology''" "''technology''"]
    by (simp add: counts)
  then show ?thesis using counts one by simp
qed

theorem categorize_article_first_maximal_witness:
  "categorize_article (new_processor None 3 15 3) ''Startup raises funding''
     [''startup'', ''raise''] = Inr ''technology'' \<and>
   overlap (new_processor None 3 15 3) ''technology'' [''startup'', ''raise''] = 1 \<and>
   overlap (new_processor None 3 15 3) ''business'' [''startup'', ''raise''] = 1"
proof -
  have tie:
    "overlap (new_processor None 3 15 3) ''technology'' [''startup'', ''raise''] = 1"
    "overlap (new_processor None 3 15 3) ''business'' [''startup'', ''raise''] = 1"
    by code_simp+
  from categorize_article_first_maximal [of 3 15 3 "''Startup raises funding''"
      "[''startup'', ''raise'']"]
  obtain r where r: "categorize_article (new_processor None 3 15 3) ''Startup raises funding''
                       [''startup'', ''raise''] = Inr r"
    by blast
  moreover have "categorize_article (new_processor None 3 15 3) ''Startup raises funding''
                   [''startup'', ''raise''] = Inr ''technology''"
    by code_simp
  ultimately show ?thesis using tie by simp
qed

theorem analyze_sentiment_bounded_witness:
  "analyze_sentiment demo_library ''Great success despite one risk'' = 1 / 3 \<and>
   pos_count demo_library ''Great success despite one risk'' = 2 \<and>
   neg_count demo_library ''Great success despite one risk'' = 1 \<and>
   word_tokenize demo_library '''' = [] \<and>
   analyze_sentiment demo_library '''' = 0"
proof -
  have counts:
    "pos_count demo_library ''Great success despite one risk'' = 2"
    "neg_count demo_library ''Great success despite one risk'' = 1"
    by code_simp+
  have mixed: "\<not> (\<forall>w\<in>set (sentiment_words demo_library ''Great success despite one risk'').
                   w \<notin> positive_words \<and> w \<notin> negative_words)"
    by code_simp
  have no_token: "word_tokenize demo_library '''' = []"
    by code_simp
  show ?thesis
    using analyze_sentiment_bounded [of demo_library "''Great success despite one risk''"]
      analyze_sentiment_bounded [of demo_library "''''"] counts mixed no_token
    by simp
qed

theorem generate_summary_short_circuit_witness:
  "int (length (split_sentences ''One. Two.'')) \<le> summarize_length default_processor \<and>
   generate_summary demo_library default_processor ''One. Two.'' = ''One. Two.''"
proof -
  have short: "int (length (split_sentences ''One. Two.'')) \<le> summarize_length default_processor"
    by code_simp
  from generate_summary_short_circuit [OF short, of demo_library] short
  show ?thesis by simp
qed

theorem summary_keeps_source_order_witness:
  "top_indices demo_library default_processor
     ''Rain. Markets rally and markets rally. Markets rally again today. Nothing else happened here. Investors cheer markets''
     = [1, 2, 4] \<and>
   generate_summary demo_library default_processor
     ''Rain. Markets rally and markets rally. Markets rally again today. Nothing else happened here. Investors cheer markets''
     = ''Markets rally and markets rally. Markets rally again today. Investors cheer markets''"
proof -
  let ?t = "''Rain. Markets rally and markets rally. Markets rally again today. Nothing else happened here. Investors cheer markets''"
  have idx: "top_indices demo_library default_processor ?t = [1, 2, 4]"
    by code_simp
  have sents: "split_sentences ?t =
      [''Rain.'', ''Markets rally and markets rally.'', ''Markets rally again today.'',
       ''Nothing else happened here.'', ''Investors cheer markets'']"
    by code_simp
  have long: "\<not> int (length (split_sentences ?t)) \<le> summarize_length default_processor"
    unfolding sents by code_simp
  show ?thesis
    using summary_keeps_source_order [of demo_library default_processor ?t 2] long
    by (simp add: idx sents)
qed

theorem selection_ranked_and_cut_witness:
  "0 \<le> max_articles_per_newsletter (demo_reader\<lparr>max_articles_per_newsletter := 2\<rparr>) \<and>
   map article_id
     (selected_articles (demo_reader\<lparr>max_articles_per_newsletter := 2\<rparr>)
        [demo_article ''a1'' ''x'' [(''demo-user'', 0.5)], demo_article ''a2'' ''x'' [(''other'', 1)],
         demo_article ''a3'' ''x'' [(''demo-user'', 0.9)], demo_article ''a4'' ''x'' [(''demo-user'', 0.5)]]
        None)
     = [''a3'', ''a1'']"
proof -
  let ?u = "demo_reader\<lparr>max_articles_per_newsletter := 2\<rparr>"
  let ?as = "[demo_article ''a1'' ''x'' [(''demo-user'', 0.5)], demo_article ''a2'' ''x'' [(''other'', 1)],
         demo_article ''a3'' ''x'' [(''demo-user'', 0.9)], demo_article ''a4'' ''x'' [(''demo-user'', 0.5)]]"
  have limit: "0 \<le> max_articles_per_newsletter ?u"
    by (simp add: demo_reader_def)
  have ids: "map article_id (take (nat (max_articles_per_newsletter ?u)) (sorted_articles ?u ?as))
               = [''a3'', ''a1'']"
    by code_simp
  from selection_ranked_and_cut [OF limit, of ?as] have
    "selected_articles ?u ?as None = take (nat (max_articles_per_newsletter ?u)) (sorted_articles ?u ?as)"
    by blast
  then show ?thesis using limit ids by simp
qed

theorem pipeline_idempotent_witness:
  "map keyword_list
     (process_articles demo_library default_processor
        (process_articles demo_library default_processor
           [demo_article ''a1'' ''Markets rally and investors cheer'' []]))
     = [[''market'', ''rally'', ''investor'', ''cheer'']] \<and>
   map category
     (process_articles demo_library default_processor
        (process_articles demo_library default_processor
           [demo_article ''a1'' ''Markets rally and investors cheer'' []]))
     = [''business'']"
proof -
  let ?as = "[demo_article ''a1'' ''Markets rally and investors cheer'' []]"
  have once:
    "map keyword_list (process_articles demo_library default_processor ?as)
       = [[''market'', ''rally'', ''investor'', ''cheer'']]"
    "map category (process_articles demo_library default_processor ?as) = [''business'']"
    by code_simp+
  from pipeline_idempotent [of demo_library default_processor ?as demo_reader "[demo_reader]"]
  have "process_articles demo_library default_processor
          (process_articles demo_library default_processor ?as)
        = process_articles demo_library default_processor ?as"
    by blast
  then show ?thesis using once by simp
qed

theorem article_dict_roundtrip_witness:
  "valid_datetime (published_date (demo_article ''a1'' ''Markets rally'' [(''demo-user'', 0.5)])) \<and>
   isoformat (published_date (demo_article ''a1'' ''Markets rally'' [(''demo-user'', 0.5)]))
     = ''2024-02-29T06:05:00.000120'' \<and>
   from_dict (to_dict (demo_article ''a1'' ''Markets rally'' [(''demo-user'', 0.5)]))
     = Inr (demo_article ''a1'' ''Markets rally'' [(''demo-user'', 0.5)])"
proof -
  let ?a = "demo_article ''a1'' ''Markets rally'' [(''demo-user'', 0.5)]"
  have valid: "valid_datetime (published_date ?a)"
    by (simp add: valid_datetime_def demo_article_def days_in_month_def is_leap_def)
  have iso: "isoformat (published_date ?a) = ''2024-02-29T06:05:00.000120''"
    by code_simp
  have restored: "from_dict (to_dict ?a) = Inr ?a"
    using valid by (rule article_dict_roundtrip)
  show ?thesis using valid iso restored by (intro conjI)
qed

lemma tu_generate_summary_example:
  "tu_generate_summary demo_library ''<p>Markets   rally.</p>'' 3 = ''Markets rally.''"
  by code_simp

end
